theory Spec2Isabelle
  imports Main
begin

unbundle bit_operations_syntax

section \<open>The symbolic memory model of src/ir/memory.cpp\<close>

text \<open>
  The memory model builds terms of a decision procedure's expression language
  (\<open>smt::expr\<close>). The embedding is denotational: a bit-vector term is modelled by its
  width and its value under an interpretation of the uninterpreted symbols, a boolean term
  by a \<open>bool\<close>, an array term by a function, a lambda term by a HOL function. Every
  definition of sections 3 and 4 follows one function of src/ir/memory.cpp; the C++
  \<open>unsigned\<close> is a \<open>nat\<close>, with the wrap-around written out where a counter is
  incremented or shifted.
\<close>

subsection \<open>1. Term algebra\<close>

text \<open>
  Modelled from the spec: the term algebra (\<open>smt/expr.h\<close>, not part of the sources at
  hand). Section 6 of the specification lists the operations consumed: \<open>bv_const\<close>,
  \<open>bv_var\<close>, \<open>array\<close>, \<open>lambda\<close>, \<open>uf\<close>, \<open>ite\<close>, \<open>concat\<close>, \<open>extract(hi, lo)\<close>,
  \<open>zext\<close>, \<open>sext\<close>, \<open>trunc\<close>, \<open>+\<close>, \<open>-\<close>, the unsigned and signed comparisons,
  \<open>add_no_soverflow\<close>, \<open>add_no_uoverflow\<close>, \<open>load\<close>, \<open>store\<close>. They have their
  usual fixed-width bit-vector meaning. A bit-vector term is \<open>BV w v\<close>: width \<open>w\<close> and
  unsigned value \<open>v\<close>. \<open>extract hi lo\<close> is meant for \<open>lo \<le> hi < bits\<close> and
  \<open>trunc n\<close> for \<open>n \<le> bits\<close>, where the library accepts them.
\<close>

datatype expr = BV (bits: nat) (val: nat)

text \<open>Modelled from the spec: \<open>expr::mkUInt(n, bits)\<close>, the constant \<open>n\<close> on \<open>bits\<close> bits.\<close>

definition mkUInt :: "nat \<Rightarrow> nat \<Rightarrow> expr" where
  "mkUInt n b = BV b (n mod 2 ^ b)"

text \<open>Modelled from the spec: \<open>a.concat(b)\<close>, with \<open>a\<close> in the high bits.\<close>

definition concat_bv :: "expr \<Rightarrow> expr \<Rightarrow> expr" where
  "concat_bv a b = BV (bits a + bits b) (val a * 2 ^ bits b + val b)"

text \<open>Modelled from the spec: \<open>x.extract(hi, lo)\<close>, the bits \<open>hi\<close> down to \<open>lo\<close>.\<close>

definition extract_bv :: "nat \<Rightarrow> nat \<Rightarrow> expr \<Rightarrow> expr" where
  "extract_bv hi lo x = BV (hi + 1 - lo) ((val x div 2 ^ lo) mod 2 ^ (hi + 1 - lo))"

text \<open>Modelled from the spec: \<open>x.zext(amount)\<close> adds \<open>amount\<close> zero bits on top.\<close>

definition zext :: "expr \<Rightarrow> nat \<Rightarrow> expr" where
  "zext x amount = BV (bits x + amount) (val x)"

text \<open>Modelled from the spec: the sign bit of a term, and \<open>x.sext(amount)\<close>, which adds
  \<open>amount\<close> copies of it on top.\<close>

definition msb :: "expr \<Rightarrow> bool" where
  "msb x = (0 < bits x \<and> odd (val x div 2 ^ (bits x - 1)))"

definition sext :: "expr \<Rightarrow> nat \<Rightarrow> expr" where
  "sext x amount =
     BV (bits x + amount)
        (if msb x then val x + (2 ^ amount - 1) * 2 ^ bits x else val x)"

text \<open>Modelled from the spec: \<open>x.trunc(tobits)\<close> keeps the low \<open>tobits\<close> bits.\<close>

definition trunc :: "expr \<Rightarrow> nat \<Rightarrow> expr" where
  "trunc x tobits = BV tobits (val x mod 2 ^ tobits)"

text \<open>Modelled from the spec: \<open>zextOrTrunc\<close> and \<open>sextOrTrunc\<close> extend a narrower term
  and truncate a wider one to \<open>tobits\<close> bits.\<close>

definition zextOrTrunc :: "expr \<Rightarrow> nat \<Rightarrow> expr" where
  "zextOrTrunc x tobits =
     (if bits x < tobits then zext x (tobits - bits x) else trunc x tobits)"

definition sextOrTrunc :: "expr \<Rightarrow> nat \<Rightarrow> expr" where
  "sextOrTrunc x tobits =
     (if bits x < tobits then sext x (tobits - bits x) else trunc x tobits)"

text \<open>Modelled from the spec: wrap-around addition and subtraction of two terms of one
  width.\<close>

definition bvadd :: "expr \<Rightarrow> expr \<Rightarrow> expr" where
  "bvadd a b = BV (bits a) ((val a + val b) mod 2 ^ bits a)"

definition bvsub :: "expr \<Rightarrow> expr \<Rightarrow> expr" where
  "bvsub a b = BV (bits a) ((val a + 2 ^ bits a - val b mod 2 ^ bits a) mod 2 ^ bits a)"

text \<open>Modelled from the spec: bitwise or (\<open>a | b\<close>) of two terms of one width.\<close>

definition bvor :: "expr \<Rightarrow> expr \<Rightarrow> expr" where
  "bvor a b = BV (bits a) (val a OR val b)"

text \<open>Modelled from the spec: the two's complement reading of a term, and the unsigned
  and signed comparisons.\<close>

definition sval :: "expr \<Rightarrow> int" where
  "sval x = (if msb x then int (val x) - 2 ^ bits x else int (val x))"

definition ule :: "expr \<Rightarrow> expr \<Rightarrow> bool" where "ule a b = (val a \<le> val b)"
definition ult :: "expr \<Rightarrow> expr \<Rightarrow> bool" where "ult a b = (val a < val b)"
definition uge :: "expr \<Rightarrow> expr \<Rightarrow> bool" where "uge a b = (val b \<le> val a)"
definition ugt :: "expr \<Rightarrow> expr \<Rightarrow> bool" where "ugt a b = (val b < val a)"
definition sle :: "expr \<Rightarrow> expr \<Rightarrow> bool" where "sle a b = (sval a \<le> sval b)"
definition slt :: "expr \<Rightarrow> expr \<Rightarrow> bool" where "slt a b = (sval a < sval b)"
definition sge :: "expr \<Rightarrow> expr \<Rightarrow> bool" where "sge a b = (sval b \<le> sval a)"
definition sgt :: "expr \<Rightarrow> expr \<Rightarrow> bool" where "sgt a b = (sval b < sval a)"

text \<open>Modelled from the spec: \<open>add_no_uoverflow\<close> and \<open>add_no_soverflow\<close>, the sum of
  two terms of one width is representable on that width.\<close>

definition add_no_uoverflow :: "expr \<Rightarrow> expr \<Rightarrow> bool" where
  "add_no_uoverflow a b = (val a + val b < 2 ^ bits a)"

definition add_no_soverflow :: "expr \<Rightarrow> expr \<Rightarrow> bool" where
  "add_no_soverflow a b =
     (- (2 ^ (bits a - 1)) \<le> sval a + sval b \<and> sval a + sval b < 2 ^ (bits a - 1))"

text \<open>Modelled from the spec: \<open>b.toBVBool()\<close>, the one-bit term that is 1 when the
  boolean term holds.\<close>

definition toBVBool :: "bool \<Rightarrow> expr" where
  "toBVBool b = (if b then mkUInt 1 1 else mkUInt 0 1)"

text \<open>Modelled from the spec: the interpretation of the uninterpreted symbols. \<open>uf\<close>
  interprets the function symbols (\<open>blks_addr\<close>, \<open>blks_size\<close> and their run-qualified
  variants) and \<open>arr\<close> the array variables (\<open>blks_val\<close>); \<open>mkUF name args range\<close> and
  \<open>mkArray name domain range\<close> have the width of their \<open>range\<close> argument.\<close>

record interp =
  uf :: "string \<Rightarrow> nat list \<Rightarrow> nat"
  arr :: "string \<Rightarrow> nat \<Rightarrow> nat"

definition mkUF :: "interp \<Rightarrow> string \<Rightarrow> expr list \<Rightarrow> expr \<Rightarrow> expr" where
  "mkUF I name args rng = BV (bits rng) (uf I name (map val args) mod 2 ^ bits rng)"

definition mkArray :: "interp \<Rightarrow> string \<Rightarrow> expr \<Rightarrow> expr \<Rightarrow> (expr \<Rightarrow> expr)" where
  "mkArray I name dmn rng =
     (\<lambda>idx. BV (bits rng) (arr I name (val idx) mod 2 ^ bits rng))"

text \<open>Modelled from the spec: \<open>bytes.isUInt(n)\<close> holds when the term is a numeral that fits
  64 bits. Being a numeral is a property of the term, not of its value, so the model takes
  it as the flag \<open>ground\<close> beside the term.\<close>

definition isUInt :: "bool \<Rightarrow> expr \<Rightarrow> nat option" where
  "isUInt ground x = (if ground \<and> val x < 2 ^ 64 then Some (val x) else None)"

text \<open>Modelled from the spec: \<open>ilog2\<close> and \<open>divide_up\<close> of \<open>util/compiler.h\<close>: the
  binary logarithm rounded down (0 at 0) and the quotient rounded up.\<close>

fun ilog2 :: "nat \<Rightarrow> nat" where
  "ilog2 n = (if n < 2 then 0 else Suc (ilog2 (n div 2)))"

declare ilog2.simps [simp del]

definition divide_up :: "nat \<Rightarrow> nat \<Rightarrow> nat" where
  "divide_up n amount = (n + amount - 1) div amount"

subsection \<open>2. Verification state, state values and types\<close>

text \<open>
  Modelled from the spec: the verification state (\<open>ir/state.h\<close>) accumulates the
  preconditions and the undefined-behaviour conditions, in the order they are added, and
  knows whether it runs the source or the target function.
\<close>

record State =
  pre :: "bool list"
  ub :: "bool list"
  source :: bool

definition addPre :: "bool \<Rightarrow> State \<Rightarrow> State" where
  "addPre c s = s\<lparr>pre := pre s @ [c]\<rparr>"

definition addUB :: "bool \<Rightarrow> State \<Rightarrow> State" where
  "addUB c s = s\<lparr>ub := ub s @ [c]\<rparr>"

definition isSource :: "State \<Rightarrow> bool" where
  "isSource s = source s"

text \<open>A state value is a pair of a value and its non-poison flag; \<open>both\<close> conjoins the
  two of a comparison.\<close>

record ('v, 'p) StateValue =
  svalue :: 'v
  non_poison :: 'p

definition both :: "(bool, bool) StateValue \<Rightarrow> bool" where
  "both v = (svalue v \<and> non_poison v)"

text \<open>
  Modelled from the spec: the type abstraction offers \<open>bits()\<close>, \<open>toBV\<close> and \<open>fromBV\<close>.
  \<open>toBV\<close> gives the value as a bit-vector and the flag as a one-bit term; \<open>fromBV\<close>
  goes back. \<open>IntType n\<close> is the \<open>n\<close>-bit integer type, whose values are bit-vectors
  already.
\<close>

record 'v Type =
  type_bits :: nat
  toBV :: "('v, bool) StateValue \<Rightarrow> (expr, expr) StateValue"
  fromBV :: "(expr, expr) StateValue \<Rightarrow> ('v, bool) StateValue"

definition IntType :: "nat \<Rightarrow> expr Type" where
  "IntType n =
     \<lparr>type_bits = n,
      toBV = (\<lambda>v. \<lparr>svalue = svalue v, non_poison = toBVBool (non_poison v)\<rparr>),
      fromBV = (\<lambda>v. \<lparr>svalue = svalue v, non_poison = (non_poison v = mkUInt 1 1)\<rparr>)\<rparr>"

subsection \<open>3. The heap record and the pointer operations\<close>

text \<open>
  Modelled from the spec: the members of the class \<open>Memory\<close>, declared in
  \<open>ir/memory.h\<close>: the bit-layout constants (read as fields of the heap, as
  \<open>m.bits_for_offset\<close> in the code), the byte array \<open>blocks_val\<close> and the two
  counters. Its \<open>state\<close> member is a pointer: the model keeps it as a handle and passes
  the \<open>State\<close> it points to through every operation that writes to it. A \<open>Pointer\<close>
  is its term \<open>p\<close>; the heap it refers to is an argument of each operation.
\<close>

record Memory =
  state :: nat
  bits_for_offset :: nat
  bits_for_local_bid :: nat
  bits_for_nonlocal_bid :: nat
  bits_size_t :: nat
  blocks_val :: "expr \<Rightarrow> expr"
  last_bid :: nat
  last_idx_ptr :: nat

definition bits_for_bids :: "Memory \<Rightarrow> nat" where
  "bits_for_bids m = bits_for_local_bid m + bits_for_nonlocal_bid m"

definition total_bits :: "Memory \<Rightarrow> nat" where
  "total_bits m = bits_for_bids m + bits_for_offset m"

text \<open>\<open>Pointer(Memory&, unsigned bid, bool local)\<close>; the shift is done on 64 bits.\<close>

definition Pointer_bid :: "Memory \<Rightarrow> nat \<Rightarrow> bool \<Rightarrow> expr" where
  "Pointer_bid m bid local =
     (let bid_expr =
        (if local
         then mkUInt ((bid * 2 ^ bits_for_nonlocal_bid m) mod 2 ^ 64) (bits_for_bids m)
         else mkUInt bid (bits_for_bids m))
      in concat_bv (mkUInt 0 (bits_for_offset m)) bid_expr)"

text \<open>\<open>Pointer(Memory&, offset, local_bid, nonlocal_bid)\<close>.\<close>

definition Pointer_fields :: "expr \<Rightarrow> expr \<Rightarrow> expr \<Rightarrow> expr" where
  "Pointer_fields offset local_bid nonlocal_bid =
     concat_bv (concat_bv offset local_bid) nonlocal_bid"

definition get_bid :: "Memory \<Rightarrow> expr \<Rightarrow> expr" where
  "get_bid m p = extract_bv (bits_for_bids m - 1) 0 p"

definition get_local_bid :: "Memory \<Rightarrow> expr \<Rightarrow> expr" where
  "get_local_bid m p = extract_bv (bits_for_bids m - 1) (bits_for_nonlocal_bid m) p"

definition get_nonlocal_bid :: "Memory \<Rightarrow> expr \<Rightarrow> expr" where
  "get_nonlocal_bid m p = extract_bv (bits_for_nonlocal_bid m - 1) 0 p"

definition get_offset :: "Memory \<Rightarrow> expr \<Rightarrow> expr" where
  "get_offset m p =
     extract_bv (bits_for_bids m + bits_for_offset m - 1) (bits_for_bids m) p"

definition is_local :: "Memory \<Rightarrow> expr \<Rightarrow> bool" where
  "is_local m p = (val (get_local_bid m p) \<noteq> 0 \<and> val (get_nonlocal_bid m p) = 0)"

definition mkName :: "string \<Rightarrow> bool \<Rightarrow> string" where
  "mkName str src = str @ (if src then ''_src'' else ''_tgt'')"

definition get_address :: "interp \<Rightarrow> State \<Rightarrow> Memory \<Rightarrow> expr \<Rightarrow> expr" where
  "get_address I st m p =
     (let offset = sextOrTrunc (get_offset m p) (bits_size_t m);
          local_name = mkName ''blks_addr'' (isSource st)
      in bvadd offset
           (if is_local m p
            then mkUF I local_name [get_local_bid m p] offset
            else mkUF I ''blks_addr'' [get_nonlocal_bid m p] offset))"

definition block_size :: "interp \<Rightarrow> State \<Rightarrow> Memory \<Rightarrow> expr \<Rightarrow> expr" where
  "block_size I st m p =
     (let rng = mkUInt 0 (bits_size_t m - 1);
          local_name = mkName ''blks_size'' (isSource st)
      in concat_bv (mkUInt 0 1)
           (if is_local m p
            then mkUF I local_name [get_local_bid m p] rng
            else mkUF I ''blks_size'' [get_nonlocal_bid m p] rng))"

text \<open>\<open>Pointer::operator+(const expr&)\<close> and \<open>Pointer::operator+(unsigned)\<close>.\<close>

definition ptr_add :: "Memory \<Rightarrow> expr \<Rightarrow> expr \<Rightarrow> expr" where
  "ptr_add m p bytes =
     (let off = trunc (bvadd (sextOrTrunc (get_offset m p) (bits_size_t m))
                             (zextOrTrunc bytes (bits_size_t m)))
                      (bits_for_offset m)
      in concat_bv off (get_bid m p))"

definition ptr_add_u :: "Memory \<Rightarrow> expr \<Rightarrow> nat \<Rightarrow> expr" where
  "ptr_add_u m p bytes = ptr_add m p (mkUInt bytes (bits_for_offset m))"

definition add_no_overflow :: "Memory \<Rightarrow> expr \<Rightarrow> expr \<Rightarrow> bool" where
  "add_no_overflow m p offset = add_no_soverflow (get_offset m p) offset"

definition ptr_eq :: "Memory \<Rightarrow> expr \<Rightarrow> expr \<Rightarrow> bool" where
  "ptr_eq m p rhs = (get_bid m p = get_bid m rhs \<and> get_offset m p = get_offset m rhs)"

definition ptr_ne :: "Memory \<Rightarrow> expr \<Rightarrow> expr \<Rightarrow> bool" where
  "ptr_ne m p rhs = (\<not> ptr_eq m p rhs)"

text \<open>\<open>DEFINE_CMP(op)\<close>: the comparison of the offsets, and the flag that the two
  pointers are of one block.\<close>

definition ptr_cmp ::
  "(expr \<Rightarrow> expr \<Rightarrow> bool) \<Rightarrow> Memory \<Rightarrow> expr \<Rightarrow> expr \<Rightarrow> (bool, bool) StateValue" where
  "ptr_cmp op m p rhs =
     \<lparr>svalue = op (get_offset m p) (get_offset m rhs),
      non_poison = (get_bid m p = get_bid m rhs)\<rparr>"

definition inbounds :: "interp \<Rightarrow> State \<Rightarrow> Memory \<Rightarrow> expr \<Rightarrow> bool" where
  "inbounds I st m p =
     ule (sextOrTrunc (get_offset m p) (bits_size_t m)) (block_size I st m p)"

definition is_aligned :: "interp \<Rightarrow> State \<Rightarrow> Memory \<Rightarrow> expr \<Rightarrow> nat \<Rightarrow> bool" where
  "is_aligned I st m p align =
     (let b = ilog2 align
      in if b \<noteq> 0 then val (extract_bv (b - 1) 0 (get_address I st m p)) = 0 else True)"

text \<open>\<open>Pointer::is_dereferenceable(const expr&, unsigned)\<close> and its \<open>unsigned\<close>
  overload. The condition goes to the state as an undefined-behaviour condition.\<close>

definition is_dereferenceable ::
  "interp \<Rightarrow> Memory \<Rightarrow> expr \<Rightarrow> expr \<Rightarrow> nat \<Rightarrow> State \<Rightarrow> State" where
  "is_dereferenceable I m p bytes0 align st =
     (let block_sz = block_size I st m p;
          offset = sextOrTrunc (get_offset m p) (bits_size_t m);
          bytes = zextOrTrunc bytes0 (bits_size_t m);
          cond = ule (bvadd offset bytes) block_sz;
          cond = (cond \<and> add_no_uoverflow offset bytes);
          cond = (cond \<and> is_aligned I st m p align)
      in addUB (ugt bytes (mkUInt 0 (bits bytes)) \<longrightarrow> cond) st)"

definition is_dereferenceable_u ::
  "interp \<Rightarrow> Memory \<Rightarrow> expr \<Rightarrow> nat \<Rightarrow> nat \<Rightarrow> State \<Rightarrow> State" where
  "is_dereferenceable_u I m p bytes align st =
     is_dereferenceable I m p (mkUInt bytes (bits_for_offset m)) align st"

text \<open>The static \<open>disjoint\<close> and \<open>Pointer::is_disjoint\<close>.\<close>

definition disjoint :: "expr \<Rightarrow> expr \<Rightarrow> expr \<Rightarrow> expr \<Rightarrow> bool" where
  "disjoint begin1 len1 begin2 len2 =
     (uge begin1 (bvadd begin2 len2) \<or> uge begin2 (bvadd begin1 len1))"

definition is_disjoint ::
  "Memory \<Rightarrow> expr \<Rightarrow> expr \<Rightarrow> expr \<Rightarrow> expr \<Rightarrow> State \<Rightarrow> State" where
  "is_disjoint m p len1 ptr2 len2 st =
     addUB (get_bid m p \<noteq> get_bid m ptr2 \<or>
            disjoint (sextOrTrunc (get_offset m p) (bits_size_t m))
                     (zextOrTrunc len1 (bits_size_t m))
                     (sextOrTrunc (get_offset m ptr2) (bits_size_t m))
                     (zextOrTrunc len2 (bits_size_t m))) st"

subsection \<open>4. The heap operations\<close>

text \<open>\<open>Memory::mk_val_array\<close>: the array variable from pointers to 9-bit cells.\<close>

definition mk_val_array :: "interp \<Rightarrow> Memory \<Rightarrow> string \<Rightarrow> (expr \<Rightarrow> expr)" where
  "mk_val_array I m name =
     (let bits_bids = bits_for_local_bid m + bits_for_nonlocal_bid m
      in mkArray I name (mkUInt 0 (bits_bids + bits_for_offset m)) (mkUInt 0 (8 + 1)))"

text \<open>
  \<open>Memory::Memory(State&)\<close>. The member initialisers are in \<open>ir/memory.h\<close>, which is
  not among the sources at hand, so the bit-layout constants and the initial values of the
  two counters are arguments here. \<open>blocks_val\<close> is unset until the body assigns it
  (\<open>m0\<close> holds a placeholder), the lambda over \<open>#idx0\<close> is a HOL function of the
  index, and the constructor's assertion \<open>bits_for_offset <= bits_size_t\<close> fails as
  \<open>None\<close>.
\<close>

definition Memory_init ::
  "interp \<Rightarrow> nat \<Rightarrow> nat \<Rightarrow> nat \<Rightarrow> nat \<Rightarrow> nat \<Rightarrow> nat \<Rightarrow> nat \<Rightarrow> Memory option" where
  "Memory_init I sh w_off w_lbid w_nbid w_sz bid0 idx0 =
     (let m0 = \<lparr>state = sh, bits_for_offset = w_off, bits_for_local_bid = w_lbid,
                 bits_for_nonlocal_bid = w_nbid, bits_size_t = w_sz,
                 blocks_val = (\<lambda>idx. idx), last_bid = bid0, last_idx_ptr = idx0\<rparr>;
          m1 = m0\<lparr>blocks_val := mk_val_array I m0 ''blks_val''\<rparr>;
          poison = mkUInt 0 9;
          m2 = m1\<lparr>blocks_val :=
                    (\<lambda>idx. if is_local m1 idx then poison else blocks_val m1 idx)\<rparr>
      in if bits_for_offset m2 \<le> bits_size_t m2 then Some m2 else None)"

text \<open>\<open>Memory::mkInput\<close>; the fresh variable \<open>name\<close> has the value \<open>var\<close>.\<close>

definition mkInput :: "Memory \<Rightarrow> expr \<Rightarrow> expr \<times> expr list" where
  "mkInput m var =
     (let nbits = bits_for_nonlocal_bid m + bits_for_offset m;
          offset = extract_bv (nbits - 1) (bits_for_nonlocal_bid m) var;
          bid = extract_bv (bits_for_nonlocal_bid m - 1) 0 var;
          local_bid = mkUInt 0 (bits_for_local_bid m)
      in (Pointer_fields offset local_bid bid, [var]))"

text \<open>\<open>Memory::alloc\<close>; \<open>++last_bid\<close> is on 32 bits.\<close>

definition alloc ::
  "interp \<Rightarrow> Memory \<Rightarrow> State \<Rightarrow> expr \<Rightarrow> nat \<Rightarrow> bool \<Rightarrow> expr \<times> Memory \<times> State" where
  "alloc I m st bytes align local =
     (let m1 = m\<lparr>last_bid := (last_bid m + 1) mod 2 ^ 32\<rparr>;
          p = Pointer_bid m1 (last_bid m1) local;
          st1 = addPre (is_aligned I st m1 p align) st;
          size = zextOrTrunc bytes (bits_size_t m1);
          st2 = addPre (block_size I st1 m1 p = size) st1
      in (p, m1, st2))"

text \<open>\<open>Memory::free\<close> does nothing.\<close>

definition free :: "Memory \<Rightarrow> expr \<Rightarrow> Memory" where
  "free m ptr = m"

text \<open>\<open>Memory::store\<close>. The loop over the bytes is a fold over \<open>[0..<bytes]\<close>.\<close>

definition store_byte ::
  "Memory \<Rightarrow> expr \<Rightarrow> (expr, expr) StateValue \<Rightarrow> (expr \<Rightarrow> expr) \<Rightarrow> nat \<Rightarrow> (expr \<Rightarrow> expr)" where
  "store_byte m ptr v bv i =
     (let data = extract_bv ((i + 1) * 8 - 1) (i * 8) (svalue v);
          p = ptr_add_u m ptr i
      in bv(p := concat_bv (non_poison v) data))"

definition store ::
  "interp \<Rightarrow> Memory \<Rightarrow> State \<Rightarrow> expr \<Rightarrow> ('v, bool) StateValue \<Rightarrow> 'v Type \<Rightarrow> nat
     \<Rightarrow> Memory \<times> State" where
  "store I m st p v type align =
     (let v0 = toBV type v;
          nbits = bits (svalue v0);
          bytes = divide_up nbits 8;
          v1 = v0\<lparr>svalue := zext (svalue v0) (bytes * 8 - nbits)\<rparr>;
          st1 = is_dereferenceable_u I m p bytes align st
      in (m\<lparr>blocks_val := foldl (store_byte m p v1) (blocks_val m) [0..<bytes]\<rparr>, st1))"

text \<open>
  \<open>Memory::load\<close>. The accumulator of the loop is \<open>None\<close> while \<open>first\<close> holds
  and no byte has been read. A load of no byte leaves the value unset: \<open>None\<close>.
\<close>

definition load_byte ::
  "Memory \<Rightarrow> expr \<Rightarrow> (expr, expr) StateValue option \<Rightarrow> nat
     \<Rightarrow> (expr, expr) StateValue option" where
  "load_byte m ptr acc i =
     (let ptr_i = ptr_add_u m ptr i;
          pair = blocks_val m ptr_i;
          v = extract_bv (8 - 1) 0 pair;
          p = extract_bv 8 8 pair
      in case acc of
           None \<Rightarrow> Some \<lparr>svalue = v, non_poison = p\<rparr>
         | Some a \<Rightarrow>
             Some \<lparr>svalue = concat_bv v (svalue a), non_poison = bvor p (non_poison a)\<rparr>)"

definition load_bv :: "Memory \<Rightarrow> expr \<Rightarrow> nat \<Rightarrow> (expr, expr) StateValue option" where
  "load_bv m p nbits =
     (let bytes = divide_up nbits 8
      in map_option (\<lambda>a. a\<lparr>svalue := trunc (svalue a) nbits\<rparr>)
           (foldl (load_byte m p) None [0..<bytes]))"

definition load ::
  "interp \<Rightarrow> Memory \<Rightarrow> State \<Rightarrow> expr \<Rightarrow> 'v Type \<Rightarrow> nat
     \<Rightarrow> ('v, bool) StateValue option \<times> State" where
  "load I m st p type align =
     (let nbits = type_bits type;
          bytes = divide_up nbits 8;
          st1 = is_dereferenceable_u I m p bytes align st
      in (map_option (fromBV type) (load_bv m p nbits), st1))"

text \<open>
  \<open>Memory::memset\<close>. \<open>ground\<close> tells whether \<open>bytes\<close> is a numeral. In the general
  path the lambda over the fresh index \<open>#idx_n\<close> is a HOL function of the index.
\<close>

definition memset ::
  "interp \<Rightarrow> Memory \<Rightarrow> State \<Rightarrow> expr \<Rightarrow> (expr, bool) StateValue \<Rightarrow> expr \<Rightarrow> bool \<Rightarrow> nat
     \<Rightarrow> Memory \<times> State" where
  "memset I m st p v bytes ground align =
     (let st1 = is_dereferenceable I m p bytes align st;
          store_val = concat_bv (toBVBool (non_poison v)) (svalue v);
          general =
            m\<lparr>blocks_val :=
                (\<lambda>idx. if both (ptr_cmp uge m idx p) \<and>
                            both (ptr_cmp ult m idx (ptr_add m p bytes))
                         then store_val else blocks_val m idx),
              last_idx_ptr := (last_idx_ptr m + 1) mod 2 ^ 32\<rparr>
      in case isUInt ground bytes of
           None \<Rightarrow> (general, st1)
         | Some n \<Rightarrow>
             if n \<le> 4
             then (m\<lparr>blocks_val :=
                       foldl (\<lambda>bv i. bv(ptr_add_u m p i := store_val)) (blocks_val m)
                             [0..<n]\<rparr>, st1)
             else (general, st1))"

text \<open>\<open>Memory::memcpy\<close>. \<open>old_val\<close> is the array before the first store.\<close>

definition memcpy ::
  "interp \<Rightarrow> Memory \<Rightarrow> State \<Rightarrow> expr \<Rightarrow> expr \<Rightarrow> expr \<Rightarrow> bool \<Rightarrow> nat \<Rightarrow> nat \<Rightarrow> bool
     \<Rightarrow> Memory \<times> State" where
  "memcpy I m st d s bytes ground align_dst align_src move =
     (let st1 = is_dereferenceable I m d bytes align_dst st;
          st2 = is_dereferenceable I m s bytes align_src st1;
          st3 = (if \<not> move then is_disjoint m s bytes d bytes st2 else st2);
          general =
            m\<lparr>blocks_val :=
                (\<lambda>dst_idx.
                   let src_idx = ptr_add m s (bvsub (get_offset m dst_idx) (get_offset m d))
                   in if both (ptr_cmp uge m dst_idx d) \<and>
                         both (ptr_cmp ult m dst_idx (ptr_add m d bytes))
                      then blocks_val m src_idx else blocks_val m dst_idx),
              last_idx_ptr := (last_idx_ptr m + 1) mod 2 ^ 32\<rparr>
      in case isUInt ground bytes of
           None \<Rightarrow> (general, st3)
         | Some n \<Rightarrow>
             if n \<le> 4
             then (let old_val = blocks_val m
                   in (m\<lparr>blocks_val :=
                            foldl (\<lambda>bv i. bv(ptr_add_u m d i := old_val (ptr_add_u m s i)))
                                  (blocks_val m) [0..<n]\<rparr>, st3))
             else (general, st3))"

definition ptr2int :: "interp \<Rightarrow> State \<Rightarrow> Memory \<Rightarrow> expr \<Rightarrow> expr" where
  "ptr2int I st m ptr = get_address I st m ptr"

text \<open>\<open>Memory::mkIf\<close>; the assertion that the two heaps have one state fails as
  \<open>None\<close>.\<close>

definition mkIf :: "bool \<Rightarrow> Memory \<Rightarrow> Memory \<Rightarrow> Memory option" where
  "mkIf cond then_m els =
     (if state then_m = state els
      then Some (then_m\<lparr>blocks_val := (if cond then blocks_val then_m else blocks_val els),
                       last_bid := max (last_bid then_m) (last_bid els),
                       last_idx_ptr := max (last_idx_ptr then_m) (last_idx_ptr els)\<rparr>)
      else None)"

subsection \<open>5. Well-formed inputs and the running examples\<close>

text \<open>
  The invariants of the bit layout (the constructor asserts the last one; the widths are
  positive), a pointer term of the heap's pointer width, and a term whose value fits its
  width.
\<close>

definition wf_layout :: "Memory \<Rightarrow> bool" where
  "wf_layout m =
     (0 < bits_for_offset m \<and> 0 < bits_for_local_bid m \<and> 0 < bits_for_nonlocal_bid m \<and>
      bits_for_offset m \<le> bits_size_t m)"

definition wf_ptr :: "Memory \<Rightarrow> expr \<Rightarrow> bool" where
  "wf_ptr m p = (bits p = total_bits m \<and> val p < 2 ^ total_bits m)"

definition wf_bv :: "expr \<Rightarrow> bool" where
  "wf_bv x = (val x < 2 ^ bits x)"

text \<open>
  The examples run on the layout of the specification's scenarios: 16 bits of offset, 4 of
  local block id, 4 of non-local block id, 32 of \<open>size_t\<close>, on a heap whose counters are
  0. The interpretation gives every block of the source run the size 8 and the base
  address 0.
\<close>

definition ex_I :: interp where
  "ex_I = \<lparr>uf = (\<lambda>name args. if name = ''blks_size_src'' then 8 else 0),
           arr = (\<lambda>name idx. 0)\<rparr>"

definition ex_st :: State where
  "ex_st = \<lparr>pre = [], ub = [], source = True\<rparr>"

definition ex_mem :: Memory where
  "ex_mem = the (Memory_init ex_I 0 16 4 4 32 0 0)"

definition ex_ptr :: expr where
  "ex_ptr = Pointer_bid ex_mem 1 True"

text \<open>Two heaps of one run have the same bit-layout constants.\<close>

definition same_layout :: "Memory \<Rightarrow> Memory \<Rightarrow> bool" where
  "same_layout a b =
     (bits_for_offset a = bits_for_offset b \<and> bits_for_local_bid a = bits_for_local_bid b \<and>
      bits_for_nonlocal_bid a = bits_for_nonlocal_bid b \<and> bits_size_t a = bits_size_t b)"

text \<open>\<open>allocs I n (m, st)\<close>: \<open>n\<close> successive allocations of local blocks of 4 bytes,
  as a function under verification makes them.\<close>

primrec allocs :: "interp \<Rightarrow> nat \<Rightarrow> Memory \<times> State \<Rightarrow> Memory \<times> State" where
  "allocs I 0 ms = ms"
| "allocs I (Suc n) ms =
     snd (alloc I (fst (allocs I n ms)) (snd (allocs I n ms)) (mkUInt 4 32) 4 True)"

text \<open>
  A small layout, within the invariants: 2 bits of offset, 2 of local and 2 of non-local
  block id, 8 of \<open>size_t\<close>; and the values that the examples store.
\<close>

definition ex_small :: Memory where
  "ex_small = the (Memory_init ex_I 0 2 2 2 8 0 0)"

definition ex_small_ptr :: expr where
  "ex_small_ptr = Pointer_bid ex_small 1 True"

definition ex_val8 :: "(expr, bool) StateValue" where
  "ex_val8 = \<lparr>svalue = mkUInt 0x04 8, non_poison = True\<rparr>"

definition ex_val32 :: "(expr, bool) StateValue" where
  "ex_val32 = \<lparr>svalue = mkUInt 0x01020304 32, non_poison = True\<rparr>"

definition ex_val40 :: "(expr, bool) StateValue" where
  "ex_val40 = \<lparr>svalue = mkUInt 0x0504030201 40, non_poison = True\<rparr>"

text \<open>The heap of the examples after a store of the 32-bit value \<open>0x01020304\<close> at the
  first local block, and the byte \<open>0xFF\<close> that the examples fill with.\<close>

definition ex_mem32 :: Memory where
  "ex_mem32 = fst (store ex_I ex_mem ex_st ex_ptr ex_val32 (IntType 32) 4)"

definition ex_fill :: "(expr, bool) StateValue" where
  "ex_fill = \<lparr>svalue = mkUInt 0xFF 8, non_poison = True\<rparr>"

text \<open>A poisoned byte, and the first allocation on the heap of the examples: a local
  block of 8 bytes.\<close>

definition ex_poison8 :: "(expr, bool) StateValue" where
  "ex_poison8 = \<lparr>svalue = mkUInt 0x04 8, non_poison = False\<rparr>"

definition ex_alloc :: "expr \<times> Memory \<times> State" where
  "ex_alloc = alloc ex_I ex_mem ex_st (mkUInt 8 32) 1 True"

section \<open>Properties\<close>

subsection \<open>Bit-vector and field lemmas\<close>

lemma mod_mod_pow_le: "a \<le> b \<Longrightarrow> (x mod 2 ^ b) mod 2 ^ a = (x::nat) mod 2 ^ a"
  by (simp add: mod_mod_cancel le_imp_power_dvd)

lemma bids_pos: "wf_layout m \<Longrightarrow> 0 < bits_for_bids m"
  by (simp add: wf_layout_def bits_for_bids_def)

lemma get_bid_eq: "wf_layout m \<Longrightarrow> get_bid m p = BV (bits_for_bids m) (val p mod 2 ^ bits_for_bids m)"
  using bids_pos[of m] by (simp add: get_bid_def extract_bv_def)

lemma get_offset_eq: "wf_layout m \<Longrightarrow>
  get_offset m p = BV (bits_for_offset m) ((val p div 2 ^ bits_for_bids m) mod 2 ^ bits_for_offset m)"
  using bids_pos[of m] by (simp add: get_offset_def extract_bv_def)

lemma get_local_bid_eq: "wf_layout m \<Longrightarrow>
  get_local_bid m p = BV (bits_for_local_bid m) ((val p div 2 ^ bits_for_nonlocal_bid m) mod 2 ^ bits_for_local_bid m)"
  by (simp add: get_local_bid_def extract_bv_def bits_for_bids_def wf_layout_def)

lemma get_nonlocal_bid_eq: "wf_layout m \<Longrightarrow>
  get_nonlocal_bid m p = BV (bits_for_nonlocal_bid m) (val p mod 2 ^ bits_for_nonlocal_bid m)"
  by (simp add: get_nonlocal_bid_def extract_bv_def wf_layout_def)

lemma val_sext_mod: "val (sext x n) mod 2 ^ bits x = val x mod 2 ^ bits x"
  by (simp add: sext_def)

lemma val_sextOrTrunc_mod:
  "bits x \<le> n \<Longrightarrow> val (sextOrTrunc x n) mod 2 ^ bits x = val x mod 2 ^ bits x"
  by (auto simp: sextOrTrunc_def val_sext_mod trunc_def)

lemma bits_sextOrTrunc: "bits (sextOrTrunc x n) = n"
  by (simp add: sextOrTrunc_def sext_def trunc_def)

lemma bits_zextOrTrunc: "bits (zextOrTrunc x n) = n"
  by (simp add: zextOrTrunc_def zext_def trunc_def)

lemma val_zextOrTrunc_mod:
  "k \<le> n \<Longrightarrow> val (zextOrTrunc x n) mod 2 ^ k = val x mod 2 ^ k"
  by (auto simp: zextOrTrunc_def zext_def trunc_def mod_mod_pow_le)

lemma ptr_add_eq:
  assumes "wf_layout m"
  shows "ptr_add m p d =
    BV (bits_for_offset m + bits_for_bids m)
       (((val p div 2 ^ bits_for_bids m) mod 2 ^ bits_for_offset m + val d) mod 2 ^ bits_for_offset m
          * 2 ^ bits_for_bids m + val p mod 2 ^ bits_for_bids m)"
proof -
  let ?o = "get_offset m p"
  have le: "bits_for_offset m \<le> bits_size_t m" using assms by (simp add: wf_layout_def)
  have bo: "bits ?o = bits_for_offset m" using assms by (simp add: get_offset_eq)
  have "(val (sextOrTrunc ?o (bits_size_t m)) + val (zextOrTrunc d (bits_size_t m)))
          mod 2 ^ bits_for_offset m
        = (val (sextOrTrunc ?o (bits_size_t m)) mod 2 ^ bits_for_offset m
            + val (zextOrTrunc d (bits_size_t m)) mod 2 ^ bits_for_offset m) mod 2 ^ bits_for_offset m"
    by (simp add: mod_add_eq)
  also have "\<dots> = (val ?o mod 2 ^ bits_for_offset m + val d mod 2 ^ bits_for_offset m) mod 2 ^ bits_for_offset m"
    using val_sextOrTrunc_mod[of ?o "bits_size_t m"] le bo val_zextOrTrunc_mod[OF le, of d] by simp
  also have "\<dots> = (val ?o + val d) mod 2 ^ bits_for_offset m"
    by (simp add: mod_add_eq)
  finally have key: "(val (sextOrTrunc ?o (bits_size_t m)) + val (zextOrTrunc d (bits_size_t m)))
          mod 2 ^ bits_for_offset m = (val ?o + val d) mod 2 ^ bits_for_offset m" .
  have "ptr_add m p d = concat_bv (BV (bits_for_offset m) ((val ?o + val d) mod 2 ^ bits_for_offset m)) (get_bid m p)"
    unfolding ptr_add_def Let_def trunc_def bvadd_def
    by (simp add: bits_sextOrTrunc mod_mod_pow_le[OF le] key)
  then show ?thesis using assms by (simp add: concat_bv_def get_bid_eq get_offset_eq)
qed

lemma div_mult_add_pow: "b < 2 ^ n \<Longrightarrow> (a * 2 ^ n + b) div 2 ^ n = (a::nat)"
  by simp

lemma get_offset_ptr_add:
  assumes "wf_layout m"
  shows "get_offset m (ptr_add m p d) =
     BV (bits_for_offset m) ((val (get_offset m p) + val d) mod 2 ^ bits_for_offset m)"
  using assms by (simp add: ptr_add_eq get_offset_eq)

lemma get_bid_ptr_add:
  assumes "wf_layout m"
  shows "get_bid m (ptr_add m p d) = get_bid m p"
  using assms by (simp add: ptr_add_eq get_bid_eq)

lemma wf_ptr_split:
  assumes "wf_layout m" "wf_ptr m p"
  shows "p = BV (bits_for_offset m + bits_for_bids m)
     ((val p div 2 ^ bits_for_bids m) mod 2 ^ bits_for_offset m * 2 ^ bits_for_bids m
        + val p mod 2 ^ bits_for_bids m)"
proof -
  have "val p div 2 ^ bits_for_bids m < 2 ^ bits_for_offset m"
    using assms(2)
    by (simp add: wf_ptr_def total_bits_def less_mult_imp_div_less power_add mult.commute)
  then have "(val p div 2 ^ bits_for_bids m) mod 2 ^ bits_for_offset m * 2 ^ bits_for_bids m
        + val p mod 2 ^ bits_for_bids m = val p"
    by (simp add: div_mult_mod_eq)
  moreover have "bits p = bits_for_offset m + bits_for_bids m"
    using assms(2) by (simp add: wf_ptr_def total_bits_def)
  ultimately show ?thesis by (cases p) simp
qed

lemma ptr_add_zero:
  assumes "wf_layout m" "wf_ptr m p" "val d = 0"
  shows "ptr_add m p d = p"
  using wf_ptr_split[OF assms(1,2)] assms by (simp add: ptr_add_eq)

lemma ptr_add_cong:
  assumes "wf_layout m" "val d mod 2 ^ bits_for_offset m = val e mod 2 ^ bits_for_offset m"
  shows "ptr_add m p d = ptr_add m p e"
proof -
  have "(x + val d) mod 2 ^ bits_for_offset m = (x + val e) mod 2 ^ bits_for_offset m" for x
    using assms(2) by (metis mod_add_right_eq)
  then show ?thesis using assms(1) by (simp add: ptr_add_eq)
qed

lemma ptr_add_assoc:
  assumes "wf_layout m" "val c mod 2 ^ bits_for_offset m = (val a + val b) mod 2 ^ bits_for_offset m"
  shows "ptr_add m (ptr_add m p a) b = ptr_add m p c"
proof -
  let ?W = "2 ^ bits_for_offset m :: nat"
  let ?o = "(val p div 2 ^ bits_for_bids m) mod ?W"
  have "((?o + val a) mod ?W + val b) mod ?W = (?o + (val a + val b)) mod ?W"
    by (simp add: mod_add_left_eq add.assoc)
  also have "\<dots> = (?o + val c) mod ?W"
    using assms(2) by (metis mod_add_right_eq)
  finally have k: "((?o + val a) mod ?W + val b) mod ?W = (?o + val c) mod ?W" .
  show ?thesis using k
    by (simp add: ptr_add_eq[OF assms(1)])
qed

lemma ex_mem_layout [simp]:
  "bits_for_offset ex_mem = 16" "bits_for_local_bid ex_mem = 4"
  "bits_for_nonlocal_bid ex_mem = 4" "bits_size_t ex_mem = 32"
  "last_bid ex_mem = 0" "last_idx_ptr ex_mem = 0" "state ex_mem = 0"
  by (simp_all add: ex_mem_def Memory_init_def Let_def)

lemma ex_mem_wf [simp]: "wf_layout ex_mem"
  by (simp add: wf_layout_def)

lemma ex_mem_bids [simp]: "bits_for_bids ex_mem = 8" "total_bits ex_mem = 24"
  by (simp_all add: bits_for_bids_def total_bits_def)

lemma sextOrTrunc_offset:
  assumes "wf_layout m"
  shows "sextOrTrunc (get_offset m p) (bits_size_t m)
       = sext (get_offset m p) (bits_size_t m - bits_for_offset m)"
proof (cases "bits_for_offset m < bits_size_t m")
  case True
  then show ?thesis using assms by (simp add: sextOrTrunc_def get_offset_eq)
next
  case False
  then have e: "bits_size_t m = bits_for_offset m" using assms by (simp add: wf_layout_def)
  show ?thesis using assms by (simp add: sextOrTrunc_def get_offset_eq e trunc_def sext_def)
qed

lemma zextOrTrunc_zext:
  assumes "wf_bv d" "bits d \<le> n"
  shows "zextOrTrunc d n = zext d (n - bits d)"
  using assms by (cases d) (auto simp: zextOrTrunc_def zext_def trunc_def wf_bv_def)

lemma ex_ptr_eq: "ex_ptr = BV 24 16"
  by (simp add: ex_ptr_def Pointer_bid_def Let_def mkUInt_def concat_bv_def)

subsection \<open>Pointer addition\<close>

text \<open>
  Claim C4. For a well-formed pointer \<open>p\<close> and a byte count \<open>d\<close> no wider than
  \<open>size_t\<close>, the offset field of \<open>p + d\<close> is the truncation to the offset width of the
  sum of the sign-extended offset and the zero-extended count, that is the sum of the offset
  and the count modulo \<open>2 ^ bits_for_offset\<close>, and the block id field is that of \<open>p\<close>.
  Adding zero gives \<open>p\<close> back, and \<open>(p + a) + b\<close> is the pointer \<open>p + (a + b)\<close>, the sum
  taken modulo \<open>2 ^ bits_for_offset\<close>, with the block id of \<open>p\<close>.
\<close>

theorem ptr_add_offset_bid_identity_assoc:
  assumes "wf_layout m" and "wf_ptr m p" and "wf_bv d" and "bits d \<le> bits_size_t m"
  shows "get_offset m (ptr_add m p d) =
           trunc (bvadd (sext (get_offset m p) (bits_size_t m - bits_for_offset m))
                        (zext d (bits_size_t m - bits d)))
                 (bits_for_offset m)
       \<and> get_offset m (ptr_add m p d) =
           BV (bits_for_offset m) ((val (get_offset m p) + val d) mod 2 ^ bits_for_offset m)
       \<and> get_bid m (ptr_add m p d) = get_bid m p
       \<and> ptr_add m p (mkUInt 0 w) = p
       \<and> ptr_add m (ptr_add m p a) b = ptr_add m p (mkUInt (val a + val b) (bits_for_offset m))
       \<and> get_offset m (ptr_add m (ptr_add m p a) b) =
           BV (bits_for_offset m) ((val (get_offset m p) + (val a + val b)) mod 2 ^ bits_for_offset m)
       \<and> get_bid m (ptr_add m (ptr_add m p a) b) = get_bid m p"
proof -
  have le: "bits_for_offset m \<le> bits_size_t m" using assms(1) by (simp add: wf_layout_def)
  have num: "get_offset m (ptr_add m p d) =
           BV (bits_for_offset m) ((val (get_offset m p) + val d) mod 2 ^ bits_for_offset m)"
    by (rule get_offset_ptr_add[OF assms(1)])
  have "trunc (bvadd (sext (get_offset m p) (bits_size_t m - bits_for_offset m))
                        (zext d (bits_size_t m - bits d))) (bits_for_offset m)
      = trunc (bvadd (sextOrTrunc (get_offset m p) (bits_size_t m))
                        (zextOrTrunc d (bits_size_t m))) (bits_for_offset m)"
    by (simp add: sextOrTrunc_offset[OF assms(1)] zextOrTrunc_zext[OF assms(3,4)])
  also have "\<dots> = get_offset m (ptr_add m p d)"
    using assms(1) bids_pos[OF assms(1)]
    by (simp add: ptr_add_def Let_def get_offset_def extract_bv_def concat_bv_def trunc_def
        get_bid_def)
  finally have tform: "get_offset m (ptr_add m p d) =
           trunc (bvadd (sext (get_offset m p) (bits_size_t m - bits_for_offset m))
                        (zext d (bits_size_t m - bits d))) (bits_for_offset m)" by simp
  have zero: "ptr_add m p (mkUInt 0 w) = p"
    by (rule ptr_add_zero[OF assms(1,2)]) (simp add: mkUInt_def)
  have assoc: "ptr_add m (ptr_add m p a) b = ptr_add m p (mkUInt (val a + val b) (bits_for_offset m))"
    by (rule ptr_add_assoc[OF assms(1)]) (simp add: mkUInt_def)
  have "get_offset m (ptr_add m (ptr_add m p a) b) =
       BV (bits_for_offset m) ((val (get_offset m p) + val (mkUInt (val a + val b) (bits_for_offset m))) mod 2 ^ bits_for_offset m)"
    unfolding assoc by (rule get_offset_ptr_add[OF assms(1)])
  then have off2: "get_offset m (ptr_add m (ptr_add m p a) b) =
           BV (bits_for_offset m) ((val (get_offset m p) + (val a + val b)) mod 2 ^ bits_for_offset m)"
    by (simp add: mkUInt_def mod_add_right_eq)
  have bid2: "get_bid m (ptr_add m (ptr_add m p a) b) = get_bid m p"
    by (simp add: get_bid_ptr_add[OF assms(1)])
  show ?thesis using tform num get_bid_ptr_add[OF assms(1)] zero assoc off2 bid2 by simp
qed

theorem ptr_add_offset_bid_identity_assoc_witness:
  "wf_layout ex_mem \<and> wf_ptr ex_mem ex_ptr \<and> wf_bv (mkUInt 4 32)
   \<and> bits (mkUInt 4 32) \<le> bits_size_t ex_mem
   \<and> get_offset ex_mem (ptr_add ex_mem ex_ptr (mkUInt 4 32)) = BV 16 4
   \<and> get_bid ex_mem (ptr_add ex_mem ex_ptr (mkUInt 4 32)) = BV 8 16
   \<and> ptr_add ex_mem ex_ptr (mkUInt 0 32) = ex_ptr
   \<and> ptr_add ex_mem (ptr_add ex_mem ex_ptr (mkUInt 3 32)) (mkUInt 5 32)
       = ptr_add ex_mem ex_ptr (mkUInt 8 16)"
proof -
  have h1: "wf_layout ex_mem" by simp
  have h2: "wf_ptr ex_mem ex_ptr" by (simp add: wf_ptr_def ex_ptr_eq)
  have h3: "wf_bv (mkUInt 4 32)" by (simp add: wf_bv_def mkUInt_def)
  have h4: "bits (mkUInt 4 32) \<le> bits_size_t ex_mem" by (simp add: mkUInt_def)
  have e: "get_offset ex_mem ex_ptr = BV 16 0" "get_bid ex_mem ex_ptr = BV 8 16"
          "val (mkUInt 4 32) = 4" "val (mkUInt 3 32) = 3" "val (mkUInt 5 32) = 5"
    by (simp_all add: get_offset_eq get_bid_eq ex_ptr_eq mkUInt_def)
  note t = ptr_add_offset_bid_identity_assoc
             [OF h1 h2 h3 h4, of 32 "mkUInt 3 32" "mkUInt 5 32", THEN conjunct2]
  show ?thesis
    using h1 h2 h3 h4 t by (simp add: e)
qed


lemma ilog2_8: "ilog2 8 = 3" by (simp add: ilog2.simps)

text \<open>
  Claim C10. The \<open>unsigned\<close> overload of the addition makes the count a constant of
  \<open>bits_for_offset\<close> bits first: \<open>p + n\<close> is \<open>p + (n mod 2 ^ bits_for_offset)\<close>, its
  offset field is the old offset plus \<open>n\<close> modulo \<open>2 ^ bits_for_offset\<close>, its block id
  is unchanged, and two counts that agree modulo \<open>2 ^ bits_for_offset\<close> give the same
  pointer.
\<close>

theorem ptr_add_u_mod:
  assumes "wf_layout m"
  shows "ptr_add_u m p n = ptr_add_u m p (n mod 2 ^ bits_for_offset m)
       \<and> ptr_add_u m p n = ptr_add m p (BV (bits_for_offset m) (n mod 2 ^ bits_for_offset m))
       \<and> get_offset m (ptr_add_u m p n) =
           BV (bits_for_offset m) ((val (get_offset m p) + n) mod 2 ^ bits_for_offset m)
       \<and> get_bid m (ptr_add_u m p n) = get_bid m p
       \<and> (n mod 2 ^ bits_for_offset m = n' mod 2 ^ bits_for_offset m
            \<longrightarrow> ptr_add_u m p n = ptr_add_u m p n')"
proof -
  have a: "ptr_add_u m p n = ptr_add_u m p (n mod 2 ^ bits_for_offset m)"
    by (simp add: ptr_add_u_def mkUInt_def)
  have b: "ptr_add_u m p n = ptr_add m p (BV (bits_for_offset m) (n mod 2 ^ bits_for_offset m))"
    by (simp add: ptr_add_u_def mkUInt_def)
  have c: "get_offset m (ptr_add_u m p n) =
           BV (bits_for_offset m) ((val (get_offset m p) + n) mod 2 ^ bits_for_offset m)"
    by (simp add: ptr_add_u_def get_offset_ptr_add[OF assms] mkUInt_def mod_add_right_eq)
  have d: "get_bid m (ptr_add_u m p n) = get_bid m p"
    by (simp add: ptr_add_u_def get_bid_ptr_add[OF assms])
  have e: "n mod 2 ^ bits_for_offset m = n' mod 2 ^ bits_for_offset m
            \<longrightarrow> ptr_add_u m p n = ptr_add_u m p n'"
    by (simp add: ptr_add_u_def mkUInt_def)
  show ?thesis using a b c d e by blast
qed

theorem ptr_add_u_mod_witness:
  "wf_layout ex_mem
   \<and> ptr_add_u ex_mem ex_ptr 65539 = ptr_add_u ex_mem ex_ptr 3
   \<and> get_offset ex_mem (ptr_add_u ex_mem ex_ptr 65539) = BV 16 3
   \<and> get_bid ex_mem (ptr_add_u ex_mem ex_ptr 65539) = BV 8 16"
proof -
  have h: "wf_layout ex_mem" by simp
  have e: "get_offset ex_mem ex_ptr = BV 16 0" "get_bid ex_mem ex_ptr = BV 8 16"
    by (simp_all add: get_offset_eq get_bid_eq ex_ptr_eq)
  note t = ptr_add_u_mod [OF h, of ex_ptr 65539 3]
  have 1: "ptr_add_u ex_mem ex_ptr 65539 = ptr_add_u ex_mem ex_ptr 3"
    using t by simp
  have 2: "get_offset ex_mem (ptr_add_u ex_mem ex_ptr 65539) = BV 16 3"
    using t [THEN conjunct2, THEN conjunct2, THEN conjunct1] by (simp add: e)
  have 3: "get_bid ex_mem (ptr_add_u ex_mem ex_ptr 65539) = BV 8 16"
    using t [THEN conjunct2, THEN conjunct2, THEN conjunct2, THEN conjunct1] by (simp add: e)
  show ?thesis using h 1 2 3 by blast
qed

subsection \<open>Dereferenceability\<close>


lemma ex_st_simps [simp]: "pre ex_st = []" "ub ex_st = []" "source ex_st = True"
  by (simp_all add: ex_st_def)









subsection \<open>Allocation\<close>

text \<open>The pointer operations read the bit-layout constants of the heap only.\<close>

lemma fields_last_bid [simp]:
  "bits_for_bids (m\<lparr>last_bid := x\<rparr>) = bits_for_bids m"
  "total_bits (m\<lparr>last_bid := x\<rparr>) = total_bits m"
  "get_bid (m\<lparr>last_bid := x\<rparr>) = get_bid m"
  "get_local_bid (m\<lparr>last_bid := x\<rparr>) = get_local_bid m"
  "get_nonlocal_bid (m\<lparr>last_bid := x\<rparr>) = get_nonlocal_bid m"
  "get_offset (m\<lparr>last_bid := x\<rparr>) = get_offset m"
  "is_local (m\<lparr>last_bid := x\<rparr>) = is_local m"
  "wf_layout (m\<lparr>last_bid := x\<rparr>) = wf_layout m"
  by (simp_all add: bits_for_bids_def total_bits_def get_bid_def get_local_bid_def
      get_nonlocal_bid_def get_offset_def is_local_def wf_layout_def fun_eq_iff)

lemma fields_blocks_val [simp]:
  "bits_for_bids (m\<lparr>blocks_val := y\<rparr>) = bits_for_bids m"
  "total_bits (m\<lparr>blocks_val := y\<rparr>) = total_bits m"
  "get_bid (m\<lparr>blocks_val := y\<rparr>) = get_bid m"
  "get_local_bid (m\<lparr>blocks_val := y\<rparr>) = get_local_bid m"
  "get_nonlocal_bid (m\<lparr>blocks_val := y\<rparr>) = get_nonlocal_bid m"
  "get_offset (m\<lparr>blocks_val := y\<rparr>) = get_offset m"
  "is_local (m\<lparr>blocks_val := y\<rparr>) = is_local m"
  "wf_layout (m\<lparr>blocks_val := y\<rparr>) = wf_layout m"
  by (simp_all add: bits_for_bids_def total_bits_def get_bid_def get_local_bid_def
      get_nonlocal_bid_def get_offset_def is_local_def wf_layout_def fun_eq_iff)

lemma ops_last_bid [simp]:
  "get_address I st (m\<lparr>last_bid := x\<rparr>) = get_address I st m"
  "block_size I st (m\<lparr>last_bid := x\<rparr>) = block_size I st m"
  "is_aligned I st (m\<lparr>last_bid := x\<rparr>) = is_aligned I st m"
  "ptr_add (m\<lparr>last_bid := x\<rparr>) = ptr_add m"
  "ptr_add_u (m\<lparr>last_bid := x\<rparr>) = ptr_add_u m"
  "Pointer_bid (m\<lparr>last_bid := x\<rparr>) = Pointer_bid m"
  by (simp_all add: get_address_def block_size_def is_aligned_def ptr_add_def ptr_add_u_def
      Pointer_bid_def fun_eq_iff Let_def cong: if_cong)

lemma ops_blocks_val [simp]:
  "get_address I st (m\<lparr>blocks_val := y\<rparr>) = get_address I st m"
  "block_size I st (m\<lparr>blocks_val := y\<rparr>) = block_size I st m"
  "is_aligned I st (m\<lparr>blocks_val := y\<rparr>) = is_aligned I st m"
  "ptr_add (m\<lparr>blocks_val := y\<rparr>) = ptr_add m"
  "ptr_add_u (m\<lparr>blocks_val := y\<rparr>) = ptr_add_u m"
  "is_dereferenceable I (m\<lparr>blocks_val := y\<rparr>) = is_dereferenceable I m"
  "is_dereferenceable_u I (m\<lparr>blocks_val := y\<rparr>) = is_dereferenceable_u I m"
  by (simp_all add: get_address_def block_size_def is_aligned_def ptr_add_def ptr_add_u_def
      is_dereferenceable_def is_dereferenceable_u_def fun_eq_iff Let_def cong: if_cong)

lemma Pointer_bid_offset:
  assumes "wf_layout m"
  shows "get_offset m (Pointer_bid m bid local) = BV (bits_for_offset m) 0"
proof -
  have "x mod 2 ^ bits_for_bids m div 2 ^ bits_for_bids m = 0" for x :: nat
    by simp
  then show ?thesis
    using assms by (simp add: get_offset_eq Pointer_bid_def Let_def concat_bv_def mkUInt_def)
qed

lemma is_aligned_8: "is_aligned I st m p 8 = (val (get_address I st m p) mod 8 = 0)"
  by (simp add: is_aligned_def ilog2_8 extract_bv_def)

lemma block_size_source: "source st' = source st \<Longrightarrow> block_size I st' m p = block_size I st m p"
  by (simp add: block_size_def isSource_def)

lemma alloc_fst: "fst (alloc I m st bytes align local) =
    Pointer_bid m ((last_bid m + 1) mod 2 ^ 32) local"
  by (simp add: alloc_def Let_def)

lemma alloc_mem: "fst (snd (alloc I m st bytes align local)) =
    m\<lparr>last_bid := (last_bid m + 1) mod 2 ^ 32\<rparr>"
  by (simp add: alloc_def Let_def)

lemma Pointer_bid_local_val:
  assumes "bits_for_bids m \<le> 64"
  shows "Pointer_bid m bid True =
     BV (bits_for_offset m + bits_for_bids m)
        ((bid mod 2 ^ bits_for_local_bid m) * 2 ^ bits_for_nonlocal_bid m)"
proof -
  have "(bid * 2 ^ bits_for_nonlocal_bid m) mod 2 ^ 64 mod 2 ^ bits_for_bids m
       = (bid * 2 ^ bits_for_nonlocal_bid m) mod 2 ^ bits_for_bids m"
    using assms by (rule mod_mod_pow_le)
  also have "\<dots> = (bid mod 2 ^ bits_for_local_bid m) * 2 ^ bits_for_nonlocal_bid m"
    by (simp add: bits_for_bids_def power_add)
  finally show ?thesis
    by (simp add: Pointer_bid_def Let_def mkUInt_def concat_bv_def)
qed

lemma Pointer_bid_local_fields:
  assumes "wf_layout m" "bits_for_bids m \<le> 64"
  shows "get_local_bid m (Pointer_bid m bid True)
           = BV (bits_for_local_bid m) (bid mod 2 ^ bits_for_local_bid m)"
    and "get_nonlocal_bid m (Pointer_bid m bid True) = BV (bits_for_nonlocal_bid m) 0"
  using assms(1)
  by (simp_all add: Pointer_bid_local_val[OF assms(2)] get_local_bid_eq get_nonlocal_bid_eq)

lemma mod_pow_add_div:
  "(x mod 2 ^ (l + n)) div 2 ^ n = (x div 2 ^ n) mod (2 ^ l :: nat)"
proof -
  have "x mod (2 ^ n * 2 ^ l) = 2 ^ n * (x div 2 ^ n mod 2 ^ l) + x mod 2 ^ n"
    by (rule mod_mult2_eq)
  then have "(x mod 2 ^ (l + n)) div 2 ^ n
           = (2 ^ n * (x div 2 ^ n mod 2 ^ l) + x mod 2 ^ n) div 2 ^ n"
    by (simp add: power_add mult.commute)
  also have "\<dots> = x div 2 ^ n mod 2 ^ l"
    by simp
  finally show ?thesis .
qed

lemma Pointer_bid_nonlocal_fields:
  assumes "wf_layout m"
  shows "get_nonlocal_bid m (Pointer_bid m bid False)
           = BV (bits_for_nonlocal_bid m) (bid mod 2 ^ bits_for_nonlocal_bid m)"
    and "get_local_bid m (Pointer_bid m bid False)
           = BV (bits_for_local_bid m)
                ((bid div 2 ^ bits_for_nonlocal_bid m) mod 2 ^ bits_for_local_bid m)"
proof -
  have v: "Pointer_bid m bid False =
     BV (bits_for_offset m + bits_for_bids m) (bid mod 2 ^ bits_for_bids m)"
    by (simp add: Pointer_bid_def Let_def mkUInt_def concat_bv_def)
  have "bid mod 2 ^ bits_for_bids m mod 2 ^ bits_for_nonlocal_bid m
        = bid mod 2 ^ bits_for_nonlocal_bid m"
    by (rule mod_mod_pow_le) (simp add: bits_for_bids_def)
  then show "get_nonlocal_bid m (Pointer_bid m bid False)
           = BV (bits_for_nonlocal_bid m) (bid mod 2 ^ bits_for_nonlocal_bid m)"
    using assms by (simp add: v get_nonlocal_bid_eq)
  have "(bid mod 2 ^ (bits_for_local_bid m + bits_for_nonlocal_bid m))
            div 2 ^ bits_for_nonlocal_bid m
        = (bid div 2 ^ bits_for_nonlocal_bid m) mod 2 ^ bits_for_local_bid m"
    by (rule mod_pow_add_div)
  then show "get_local_bid m (Pointer_bid m bid False)
           = BV (bits_for_local_bid m)
                ((bid div 2 ^ bits_for_nonlocal_bid m) mod 2 ^ bits_for_local_bid m)"
    using assms by (simp add: v get_local_bid_eq bits_for_bids_def)
qed

text \<open>
  Claim C6, as amended. \<open>alloc\<close> increments \<open>last_bid\<close> (on 32 bits) and returns a
  pointer built from the new counter value \<open>bid\<close>; on a layout within the invariants
  (positive widths, \<open>bits_for_offset \<le> bits_size_t\<close>) its offset is 0 and its block id
  is as follows. For \<open>local = true\<close>, when the block-id field has at most 64 bits, its
  local block id is \<open>bid\<close> modulo \<open>2 ^ bits_for_local_bid\<close> and its non-local block
  id is 0. For
  \<open>local = false\<close> its non-local block id is \<open>bid\<close> modulo
  \<open>2 ^ bits_for_nonlocal_bid\<close> and its local block id is the part of \<open>bid\<close> above
  that. So the pointer carries the minted id and the requested locality when
  \<open>0 < bid < 2 ^ bits_for_local_bid\<close>, for a local block, and when
  \<open>bid < 2 ^ bits_for_nonlocal_bid\<close>, for a non-local one. \<open>alloc\<close> appends to the
  preconditions of the state, and not to its undefined-behaviour conditions, the alignment
  of the pointer and the equality of its block size with the byte count extended (or
  truncated) to \<open>size_t\<close>. With alignment 8 the first of the two says that the address of
  the pointer is divisible by 8.
\<close>

theorem alloc_mints_bid_and_adds_pre:
  "alloc I m st bytes align local =
     (Pointer_bid (m\<lparr>last_bid := (last_bid m + 1) mod 2 ^ 32\<rparr>)
                  ((last_bid m + 1) mod 2 ^ 32) local,
      m\<lparr>last_bid := (last_bid m + 1) mod 2 ^ 32\<rparr>,
      st\<lparr>pre := pre st @
           [is_aligned I st (m\<lparr>last_bid := (last_bid m + 1) mod 2 ^ 32\<rparr>)
              (fst (alloc I m st bytes align local)) align,
            block_size I st (m\<lparr>last_bid := (last_bid m + 1) mod 2 ^ 32\<rparr>)
              (fst (alloc I m st bytes align local)) = zextOrTrunc bytes (bits_size_t m)]\<rparr>)
   \<and> ub (snd (snd (alloc I m st bytes align local))) = ub st
   \<and> (wf_layout m \<longrightarrow>
        get_offset m (fst (alloc I m st bytes align local)) = BV (bits_for_offset m) 0)
   \<and> (wf_bv bytes \<and> bits bytes \<le> bits_size_t m \<longrightarrow>
        zextOrTrunc bytes (bits_size_t m) = zext bytes (bits_size_t m - bits bytes))
   \<and> (3 \<le> bits_size_t m \<longrightarrow>
        pre (snd (snd (alloc I m st bytes 8 local))) =
          pre st @
            [val (get_address I st m (fst (alloc I m st bytes 8 local))) mod 8 = 0,
             block_size I st m (fst (alloc I m st bytes 8 local))
               = zextOrTrunc bytes (bits_size_t m)])
   \<and> (wf_layout m \<and> bits_for_bids m \<le> 64 \<longrightarrow>
        get_local_bid m (fst (alloc I m st bytes align True))
          = BV (bits_for_local_bid m)
               ((last_bid m + 1) mod 2 ^ 32 mod 2 ^ bits_for_local_bid m)
      \<and> get_nonlocal_bid m (fst (alloc I m st bytes align True))
          = BV (bits_for_nonlocal_bid m) 0)
   \<and> (wf_layout m \<longrightarrow>
        get_nonlocal_bid m (fst (alloc I m st bytes align False))
          = BV (bits_for_nonlocal_bid m)
               ((last_bid m + 1) mod 2 ^ 32 mod 2 ^ bits_for_nonlocal_bid m)
      \<and> get_local_bid m (fst (alloc I m st bytes align False))
          = BV (bits_for_local_bid m)
               (((last_bid m + 1) mod 2 ^ 32 div 2 ^ bits_for_nonlocal_bid m)
                  mod 2 ^ bits_for_local_bid m))
   \<and> (wf_layout m \<and> bits_for_bids m \<le> 64 \<and> 0 < (last_bid m + 1) mod 2 ^ 32 \<and>
       (last_bid m + 1) mod 2 ^ 32 < 2 ^ bits_for_local_bid m \<longrightarrow>
        get_local_bid m (fst (alloc I m st bytes align True))
          = BV (bits_for_local_bid m) ((last_bid m + 1) mod 2 ^ 32)
      \<and> is_local m (fst (alloc I m st bytes align True)))
   \<and> (wf_layout m \<and> (last_bid m + 1) mod 2 ^ 32 < 2 ^ bits_for_nonlocal_bid m \<longrightarrow>
        get_nonlocal_bid m (fst (alloc I m st bytes align False))
          = BV (bits_for_nonlocal_bid m) ((last_bid m + 1) mod 2 ^ 32)
      \<and> get_local_bid m (fst (alloc I m st bytes align False)) = BV (bits_for_local_bid m) 0
      \<and> \<not> is_local m (fst (alloc I m st bytes align False)))"
proof -
  let ?m = "m\<lparr>last_bid := (last_bid m + 1) mod 2 ^ 32\<rparr>"
  let ?b = "(last_bid m + 1) mod 2 ^ 32"
  have bs: "block_size I (st\<lparr>pre := x\<rparr>) m' p = block_size I st m' p" for x p m'
    by (rule block_size_source) simp
  have a: "alloc I m st bytes al local =
     (Pointer_bid ?m ?b local, ?m,
      st\<lparr>pre := pre st @
           [is_aligned I st ?m (Pointer_bid ?m ?b local) al,
            block_size I st ?m (Pointer_bid ?m ?b local)
              = zextOrTrunc bytes (bits_size_t m)]\<rparr>)" for al
    by (simp add: alloc_def Let_def addPre_def bs)
  have c: "wf_layout m \<longrightarrow>
        get_offset m (fst (alloc I m st bytes align local)) = BV (bits_for_offset m) 0"
    using Pointer_bid_offset[of m] by (simp add: a)
  have d: "wf_bv bytes \<and> bits bytes \<le> bits_size_t m \<longrightarrow>
        zextOrTrunc bytes (bits_size_t m) = zext bytes (bits_size_t m - bits bytes)"
    by (simp add: zextOrTrunc_zext)
  have e: "pre (snd (snd (alloc I m st bytes 8 local))) =
          pre st @
            [val (get_address I st m (fst (alloc I m st bytes 8 local))) mod 8 = 0,
             block_size I st m (fst (alloc I m st bytes 8 local))
               = zextOrTrunc bytes (bits_size_t m)]"
    by (simp add: a is_aligned_8)
  have b: "ub (snd (snd (alloc I m st bytes align local))) = ub st"
    by (simp add: a)
  have a': "alloc I m st bytes align local =
     (Pointer_bid ?m ?b local, ?m,
      st\<lparr>pre := pre st @
           [is_aligned I st ?m (fst (alloc I m st bytes align local)) align,
            block_size I st ?m (fst (alloc I m st bytes align local))
              = zextOrTrunc bytes (bits_size_t m)]\<rparr>)"
    using a[of align] by simp
  have fl: "wf_layout m \<and> bits_for_bids m \<le> 64 \<longrightarrow>
        get_local_bid m (fst (alloc I m st bytes align True))
          = BV (bits_for_local_bid m) (?b mod 2 ^ bits_for_local_bid m)
      \<and> get_nonlocal_bid m (fst (alloc I m st bytes align True))
          = BV (bits_for_nonlocal_bid m) 0"
    by (simp only: alloc_fst) (simp add: Pointer_bid_local_fields)
  have fn: "wf_layout m \<longrightarrow>
        get_nonlocal_bid m (fst (alloc I m st bytes align False))
          = BV (bits_for_nonlocal_bid m) (?b mod 2 ^ bits_for_nonlocal_bid m)
      \<and> get_local_bid m (fst (alloc I m st bytes align False))
          = BV (bits_for_local_bid m)
               ((?b div 2 ^ bits_for_nonlocal_bid m) mod 2 ^ bits_for_local_bid m)"
    by (simp only: alloc_fst) (simp add: Pointer_bid_nonlocal_fields)
  have gl: "wf_layout m \<and> bits_for_bids m \<le> 64 \<and> 0 < ?b \<and> ?b < 2 ^ bits_for_local_bid m
      \<longrightarrow> get_local_bid m (fst (alloc I m st bytes align True))
          = BV (bits_for_local_bid m) ?b
      \<and> is_local m (fst (alloc I m st bytes align True))"
  proof
    assume h: "wf_layout m \<and> bits_for_bids m \<le> 64 \<and> 0 < ?b \<and> ?b < 2 ^ bits_for_local_bid m"
    then have 1: "get_local_bid m (fst (alloc I m st bytes align True))
          = BV (bits_for_local_bid m) (?b mod 2 ^ bits_for_local_bid m)"
      and 2: "get_nonlocal_bid m (fst (alloc I m st bytes align True))
          = BV (bits_for_nonlocal_bid m) 0"
      using fl by blast+
    have 3: "?b mod 2 ^ bits_for_local_bid m = ?b" using h by (intro mod_less) blast
    show "get_local_bid m (fst (alloc I m st bytes align True))
          = BV (bits_for_local_bid m) ?b
      \<and> is_local m (fst (alloc I m st bytes align True))"
      using h unfolding is_local_def 1 2 3 by simp
  qed
  have gn: "wf_layout m \<and> ?b < 2 ^ bits_for_nonlocal_bid m \<longrightarrow>
        get_nonlocal_bid m (fst (alloc I m st bytes align False))
          = BV (bits_for_nonlocal_bid m) ?b
      \<and> get_local_bid m (fst (alloc I m st bytes align False)) = BV (bits_for_local_bid m) 0
      \<and> \<not> is_local m (fst (alloc I m st bytes align False))"
  proof
    assume h: "wf_layout m \<and> ?b < 2 ^ bits_for_nonlocal_bid m"
    then have 1: "get_nonlocal_bid m (fst (alloc I m st bytes align False))
          = BV (bits_for_nonlocal_bid m) (?b mod 2 ^ bits_for_nonlocal_bid m)"
      and 2: "get_local_bid m (fst (alloc I m st bytes align False))
          = BV (bits_for_local_bid m)
               ((?b div 2 ^ bits_for_nonlocal_bid m) mod 2 ^ bits_for_local_bid m)"
      using fn by blast+
    have 3: "?b mod 2 ^ bits_for_nonlocal_bid m = ?b" using h by (intro mod_less) blast
    have 4: "?b div 2 ^ bits_for_nonlocal_bid m = 0" using h by (intro div_less) blast
    show "get_nonlocal_bid m (fst (alloc I m st bytes align False))
          = BV (bits_for_nonlocal_bid m) ?b
      \<and> get_local_bid m (fst (alloc I m st bytes align False)) = BV (bits_for_local_bid m) 0
      \<and> \<not> is_local m (fst (alloc I m st bytes align False))"
      unfolding is_local_def 1 2 3 4 by simp
  qed
  show ?thesis using a' b c d e fl fn gl gn by blast
qed

theorem alloc_mints_bid_and_adds_pre_witness:
  "alloc ex_I ex_mem ex_st (mkUInt 8 32) 8 True =
     (BV 24 16, ex_mem\<lparr>last_bid := 1\<rparr>, ex_st\<lparr>pre := [True, True]\<rparr>)
   \<and> pre (snd (snd (alloc ex_I ex_mem ex_st (mkUInt 8 32) 8 True))) =
       [val (get_address ex_I ex_st ex_mem (BV 24 16)) mod 8 = 0,
        block_size ex_I ex_st ex_mem (BV 24 16) = BV 32 8]
   \<and> wf_layout ex_mem \<and> bits_for_bids ex_mem \<le> 64
   \<and> get_local_bid ex_mem (fst (alloc ex_I ex_mem ex_st (mkUInt 8 32) 8 True)) = BV 4 1
   \<and> is_local ex_mem (fst (alloc ex_I ex_mem ex_st (mkUInt 8 32) 8 True))
   \<and> get_nonlocal_bid ex_mem (fst (alloc ex_I ex_mem ex_st (mkUInt 8 32) 8 False)) = BV 4 1
   \<and> get_local_bid ex_mem (fst (alloc ex_I ex_mem ex_st (mkUInt 8 32) 8 False)) = BV 4 0
   \<and> \<not> is_local ex_mem (fst (alloc ex_I ex_mem ex_st (mkUInt 8 32) 8 False))"
proof -
  note t = alloc_mints_bid_and_adds_pre [of ex_I ex_mem ex_st "mkUInt 8 32" 8 True]
  have p: "Pointer_bid ex_mem (Suc 0) True = BV 24 16"
    using ex_ptr_eq by (simp add: ex_ptr_def)
  have f: "fst (alloc ex_I ex_mem ex_st (mkUInt 8 32) 8 True) = BV 24 16"
    by (simp add: alloc_def Let_def p)
  have o: "get_offset ex_mem (BV 24 16) = BV 16 0" "get_local_bid ex_mem (BV 24 16) = BV 4 1"
     "get_nonlocal_bid ex_mem (BV 24 16) = BV 4 0"
    by (simp_all add: get_offset_eq get_local_bid_eq get_nonlocal_bid_eq)
  have bs: "block_size ex_I ex_st ex_mem (BV 24 16) = BV 32 8"
    by (simp add: block_size_def Let_def is_local_def o mkUF_def ex_I_def mkName_def
        isSource_def concat_bv_def mkUInt_def)
  have al: "is_aligned ex_I ex_st ex_mem (BV 24 16) 8"
    by (simp add: is_aligned_def ilog2_8 get_address_def Let_def is_local_def o mkUF_def
        ex_I_def mkName_def isSource_def extract_bv_def bvadd_def sextOrTrunc_def
        sext_def msb_def)
  have z: "zextOrTrunc (mkUInt 8 32) 32 = BV 32 8"
    by (simp add: zextOrTrunc_def trunc_def mkUInt_def)
  have 1: "alloc ex_I ex_mem ex_st (mkUInt 8 32) 8 True =
     (BV 24 16, ex_mem\<lparr>last_bid := 1\<rparr>, ex_st\<lparr>pre := [True, True]\<rparr>)"
    using t [THEN conjunct1] by (simp add: f p bs al z)
  have 2: "pre (snd (snd (alloc ex_I ex_mem ex_st (mkUInt 8 32) 8 True))) =
       [val (get_address ex_I ex_st ex_mem (BV 24 16)) mod 8 = 0,
        block_size ex_I ex_st ex_mem (BV 24 16) = BV 32 8]"
    using t [THEN conjunct2, THEN conjunct2, THEN conjunct2, THEN conjunct2, THEN conjunct1]
    by (simp add: f z)
  have h1: "wf_layout ex_mem" and h2: "bits_for_bids ex_mem \<le> 64" by simp_all
  have hl: "wf_layout ex_mem \<and> bits_for_bids ex_mem \<le> 64 \<and> 0 < (last_bid ex_mem + 1) mod 2 ^ 32
      \<and> (last_bid ex_mem + 1) mod 2 ^ 32 < 2 ^ bits_for_local_bid ex_mem" by simp
  have hn: "wf_layout ex_mem
      \<and> (last_bid ex_mem + 1) mod 2 ^ 32 < 2 ^ bits_for_nonlocal_bid ex_mem" by simp
  have 3: "get_local_bid ex_mem (fst (alloc ex_I ex_mem ex_st (mkUInt 8 32) 8 True)) = BV 4 1
      \<and> is_local ex_mem (fst (alloc ex_I ex_mem ex_st (mkUInt 8 32) 8 True))"
    using t [THEN conjunct2, THEN conjunct2, THEN conjunct2, THEN conjunct2, THEN conjunct2,
        THEN conjunct2, THEN conjunct2, THEN conjunct1, THEN mp, OF hl]
    by simp
  have 4: "get_nonlocal_bid ex_mem (fst (alloc ex_I ex_mem ex_st (mkUInt 8 32) 8 False)) = BV 4 1
      \<and> get_local_bid ex_mem (fst (alloc ex_I ex_mem ex_st (mkUInt 8 32) 8 False)) = BV 4 0
      \<and> \<not> is_local ex_mem (fst (alloc ex_I ex_mem ex_st (mkUInt 8 32) 8 False))"
    using t [THEN conjunct2, THEN conjunct2, THEN conjunct2, THEN conjunct2, THEN conjunct2,
        THEN conjunct2, THEN conjunct2, THEN conjunct2, THEN mp, OF hn]
    by simp
  show ?thesis using 1 2 h1 h2 3 4 by blast
qed

lemma allocs_layout:
  "bits_for_offset (fst (allocs I n ms)) = bits_for_offset (fst ms)"
  "bits_for_local_bid (fst (allocs I n ms)) = bits_for_local_bid (fst ms)"
  "bits_for_nonlocal_bid (fst (allocs I n ms)) = bits_for_nonlocal_bid (fst ms)"
  "bits_size_t (fst (allocs I n ms)) = bits_size_t (fst ms)"
  by (induction n) (simp_all add: alloc_def Let_def)

lemma allocs_last_bid:
  "last_bid (fst ms) < 2 ^ 32 \<Longrightarrow>
   last_bid (fst (allocs I n ms)) = (last_bid (fst ms) + n) mod 2 ^ 32"
  by (induction n) (simp_all add: alloc_def Let_def mod_Suc_eq)

text \<open>
  Claim C6 as stated fails on the pointer returned: the block id is cut to the width of
  its field. On the layout of the specification's scenarios (4 bits for each block id),
  after fifteen allocations on a heap whose counter was 0, a non-local allocation mints
  the id 16 and returns a pointer whose non-local block id is 0 and whose local block id
  is 1: a local pointer, and the term that the first local allocation returned.
\<close>

theorem alloc_nonlocal_pointer_counterexample:
  "last_bid (fst (allocs ex_I 15 (ex_mem, ex_st))) = 15
   \<and> fst (alloc ex_I (fst (allocs ex_I 15 (ex_mem, ex_st))) (snd (allocs ex_I 15 (ex_mem, ex_st)))
         (mkUInt 4 32) 4 False) = BV 24 16
   \<and> get_nonlocal_bid ex_mem (BV 24 16) = BV 4 0
   \<and> get_local_bid ex_mem (BV 24 16) = BV 4 1
   \<and> is_local ex_mem (BV 24 16)
   \<and> fst (alloc ex_I ex_mem ex_st (mkUInt 4 32) 4 True) = BV 24 16"
proof -
  let ?m = "fst (allocs ex_I 15 (ex_mem, ex_st))"
  have lb: "last_bid ?m = 15"
    using allocs_last_bid[of "(ex_mem, ex_st)" ex_I 15] by simp
  have a: "fst (alloc ex_I ?m (snd (allocs ex_I 15 (ex_mem, ex_st))) (mkUInt 4 32) 4 False)
        = BV 24 16"
    by (simp add: alloc_fst lb Pointer_bid_def Let_def allocs_layout bits_for_bids_def
        mkUInt_def concat_bv_def)
  have b: "get_nonlocal_bid ex_mem (BV 24 16) = BV 4 0" "get_local_bid ex_mem (BV 24 16) = BV 4 1"
    by (simp_all add: get_local_bid_eq get_nonlocal_bid_eq)
  have c: "is_local ex_mem (BV 24 16)"
    by (simp add: is_local_def b)
  have d: "fst (alloc ex_I ex_mem ex_st (mkUInt 4 32) 4 True) = BV 24 16"
    by (simp add: alloc_fst Pointer_bid_def Let_def bits_for_bids_def mkUInt_def concat_bv_def)
  show ?thesis using lb a b c d by blast
qed

text \<open>
  Claim C9, as amended. On a layout within the invariants (positive widths,
  \<open>bits_for_offset \<le> bits_size_t\<close>) whose block-id field has at most 64 bits, a pointer
  returned by \<open>alloc\<close> with \<open>local = true\<close> has a zero non-local block id, and its
  local block id is the incremented counter modulo \<open>2 ^ bits_for_local_bid\<close>. The
  pointer is local exactly when that number is not zero, that is when the incremented
  counter is not a multiple of \<open>2 ^ bits_for_local_bid\<close>. When the counter is 0 before
  the call, the local block id minted is 1.
\<close>

theorem alloc_local_pointer_is_local:
  assumes "wf_layout m" and "bits_for_bids m \<le> 64"
  shows "get_nonlocal_bid m (fst (alloc I m st bytes align True))
           = BV (bits_for_nonlocal_bid m) 0
       \<and> get_local_bid m (fst (alloc I m st bytes align True))
           = BV (bits_for_local_bid m) ((last_bid m + 1) mod 2 ^ 32 mod 2 ^ bits_for_local_bid m)
       \<and> (is_local m (fst (alloc I m st bytes align True))
            \<longleftrightarrow> (last_bid m + 1) mod 2 ^ 32 mod 2 ^ bits_for_local_bid m \<noteq> 0)
       \<and> ((last_bid m + 1) mod 2 ^ 32 mod 2 ^ bits_for_local_bid m \<noteq> 0
            \<longrightarrow> val (get_local_bid m (fst (alloc I m st bytes align True))) \<noteq> 0
              \<and> is_local m (fst (alloc I m st bytes align True)))
       \<and> (last_bid m = 0
            \<longrightarrow> get_local_bid m (fst (alloc I m st bytes align True))
                  = BV (bits_for_local_bid m) 1
              \<and> is_local m (fst (alloc I m st bytes align True)))"
proof -
  let ?p = "fst (alloc I m st bytes align True)"
  let ?b = "(last_bid m + 1) mod 2 ^ 32"
  have n: "get_nonlocal_bid m ?p = BV (bits_for_nonlocal_bid m) 0"
    by (simp only: alloc_fst Pointer_bid_local_fields[OF assms])
  have l: "get_local_bid m ?p = BV (bits_for_local_bid m) (?b mod 2 ^ bits_for_local_bid m)"
    by (simp only: alloc_fst Pointer_bid_local_fields[OF assms])
  have i: "is_local m ?p \<longleftrightarrow> ?b mod 2 ^ bits_for_local_bid m \<noteq> 0"
    by (simp add: is_local_def n l)
  have c: "?b mod 2 ^ bits_for_local_bid m \<noteq> 0
            \<longrightarrow> val (get_local_bid m ?p) \<noteq> 0 \<and> is_local m ?p"
    by (simp add: is_local_def n l)
  have d: "last_bid m = 0
            \<longrightarrow> get_local_bid m ?p = BV (bits_for_local_bid m) 1 \<and> is_local m ?p"
  proof
    assume z: "last_bid m = 0"
    have pos: "0 < bits_for_local_bid m"
      using assms(1) by (simp add: wf_layout_def)
    then have "(1::nat) < 2 ^ bits_for_local_bid m"
      by (intro one_less_power) simp_all
    then have "(1::nat) mod 2 ^ bits_for_local_bid m = 1"
      by (rule mod_less)
    then have "?b mod 2 ^ bits_for_local_bid m = 1"
      using pos by (simp add: z)
    then show "get_local_bid m ?p = BV (bits_for_local_bid m) 1 \<and> is_local m ?p"
      using l c by simp
  qed
  show ?thesis using n l i c d by blast
qed

theorem alloc_local_pointer_is_local_witness:
  "wf_layout ex_mem \<and> bits_for_bids ex_mem \<le> 64
   \<and> last_bid ex_mem = 0
   \<and> get_local_bid ex_mem (fst (alloc ex_I ex_mem ex_st (mkUInt 4 32) 4 True)) = BV 4 1
   \<and> get_nonlocal_bid ex_mem (fst (alloc ex_I ex_mem ex_st (mkUInt 4 32) 4 True)) = BV 4 0
   \<and> is_local ex_mem (fst (alloc ex_I ex_mem ex_st (mkUInt 4 32) 4 True))"
proof -
  have h1: "wf_layout ex_mem" by simp
  have h2: "bits_for_bids ex_mem \<le> 64" by simp
  have h3: "last_bid ex_mem = 0" by simp
  show ?thesis
    using h1 h2 h3
      alloc_local_pointer_is_local [OF h1 h2, of ex_I ex_st "mkUInt 4 32" 4]
    by simp
qed

text \<open>
  Claim C9 as stated fails: on the layout of the specification's scenarios (4 bits of local
  block id), after fifteen allocations on a heap whose counter was 0, the next allocation
  of a local block returns the term of the null pointer, whose local block id is 0 and
  which is not local.
\<close>

theorem alloc_local_bid_zero_counterexample:
  "fst (alloc ex_I (fst (allocs ex_I 15 (ex_mem, ex_st))) (snd (allocs ex_I 15 (ex_mem, ex_st)))
         (mkUInt 4 32) 4 True) = mkUInt 0 24
   \<and> get_local_bid ex_mem (mkUInt 0 24) = BV 4 0
   \<and> \<not> is_local ex_mem (mkUInt 0 24)"
proof -
  let ?m = "fst (allocs ex_I 15 (ex_mem, ex_st))"
  have lb: "last_bid ?m = 15"
    using allocs_last_bid[of "(ex_mem, ex_st)" ex_I 15] by simp
  have "fst (alloc ex_I ?m (snd (allocs ex_I 15 (ex_mem, ex_st))) (mkUInt 4 32) 4 True)
        = mkUInt 0 24"
    by (simp add: alloc_fst lb Pointer_bid_def Let_def allocs_layout bits_for_bids_def
        mkUInt_def concat_bv_def)
  moreover have "get_local_bid ex_mem (mkUInt 0 24) = BV 4 0"
    by (simp add: get_local_bid_eq mkUInt_def)
  moreover have "\<not> is_local ex_mem (mkUInt 0 24)"
    by (simp add: is_local_def get_local_bid_eq mkUInt_def)
  ultimately show ?thesis by blast
qed

subsection \<open>Merging two heaps\<close>

text \<open>
  Claim C8. For two heaps of one run, \<open>mkIf (\<not> c) a b\<close> and \<open>mkIf c b a\<close> are the same
  heap; when the two heaps have one state the merged heap takes \<open>blocks_val\<close> from the
  branch the condition selects and the maximum of the two counters.
\<close>

theorem mkIf_negation_commutes:
  assumes "same_layout a b"
  shows "mkIf (\<not> c) a b = mkIf c b a
       \<and> (state a = state b \<longrightarrow>
            mkIf c a b \<noteq> None
          \<and> blocks_val (the (mkIf c a b)) = (if c then blocks_val a else blocks_val b)
          \<and> last_bid (the (mkIf c a b)) = max (last_bid a) (last_bid b)
          \<and> last_idx_ptr (the (mkIf c a b)) = max (last_idx_ptr a) (last_idx_ptr b))"
  using assms by (cases a; cases b) (auto simp: mkIf_def same_layout_def max.commute)

theorem mkIf_negation_commutes_witness:
  "same_layout (ex_mem\<lparr>last_bid := 2\<rparr>) (ex_mem\<lparr>blocks_val := (\<lambda>a. mkUInt 1 9), last_idx_ptr := 3\<rparr>)
   \<and> mkIf (\<not> True) (ex_mem\<lparr>last_bid := 2\<rparr>)
          (ex_mem\<lparr>blocks_val := (\<lambda>a. mkUInt 1 9), last_idx_ptr := 3\<rparr>)
       = mkIf True (ex_mem\<lparr>blocks_val := (\<lambda>a. mkUInt 1 9), last_idx_ptr := 3\<rparr>)
          (ex_mem\<lparr>last_bid := 2\<rparr>)
   \<and> last_bid (the (mkIf True (ex_mem\<lparr>last_bid := 2\<rparr>)
          (ex_mem\<lparr>blocks_val := (\<lambda>a. mkUInt 1 9), last_idx_ptr := 3\<rparr>))) = 2"
proof -
  have h: "same_layout (ex_mem\<lparr>last_bid := 2\<rparr>)
             (ex_mem\<lparr>blocks_val := (\<lambda>a. mkUInt 1 9), last_idx_ptr := 3\<rparr>)"
    by (simp add: same_layout_def)
  show ?thesis
    using h mkIf_negation_commutes [OF h, of True] by simp
qed


subsection \<open>Byte addresses\<close>

lemma add_mod_cancel_left:
  assumes "(k + i) mod N = (k + j) mod (N::nat)"
  shows "i mod N = j mod N"
proof -
  have "int ((k + i) mod N) = int ((k + j) mod N)" using assms by simp
  then have "(int k + int i) mod int N = (int k + int j) mod int N"
    by (simp add: zmod_int)
  then have "((int k + int i) - int k) mod int N = ((int k + int j) - int k) mod int N"
    by (rule mod_diff_cong) simp
  then have "int (i mod N) = int (j mod N)" by (simp add: zmod_int)
  then show ?thesis by simp
qed

lemma ptr_add_u_eq_iff:
  assumes "wf_layout m"
  shows "ptr_add_u m p i = ptr_add_u m p j
         \<longleftrightarrow> i mod 2 ^ bits_for_offset m = j mod 2 ^ bits_for_offset m"
proof
  assume "ptr_add_u m p i = ptr_add_u m p j"
  then have "get_offset m (ptr_add_u m p i) = get_offset m (ptr_add_u m p j)" by simp
  then have "(val (get_offset m p) + i) mod 2 ^ bits_for_offset m
           = (val (get_offset m p) + j) mod 2 ^ bits_for_offset m"
    by (simp add: ptr_add_u_def get_offset_ptr_add[OF assms] mkUInt_def mod_add_right_eq)
  then show "i mod 2 ^ bits_for_offset m = j mod 2 ^ bits_for_offset m"
    by (rule add_mod_cancel_left)
next
  assume "i mod 2 ^ bits_for_offset m = j mod 2 ^ bits_for_offset m"
  then show "ptr_add_u m p i = ptr_add_u m p j"
    by (simp add: ptr_add_u_def mkUInt_def)
qed

lemma ptr_add_u_inj:
  assumes "wf_layout m" "i < 2 ^ bits_for_offset m" "j < 2 ^ bits_for_offset m" "i \<noteq> j"
  shows "ptr_add_u m p i \<noteq> ptr_add_u m p j"
  using assms by (simp add: ptr_add_u_eq_iff)

subsection \<open>The byte loops of store, load, memset and memcpy\<close>

lemma foldl_upt_Suc: "foldl f a [0..<Suc n] = f (foldl f a [0..<n]) n"
  by simp

text \<open>The cell that \<open>store\<close> writes for byte \<open>i\<close>.\<close>

lemma store_byte_apply:
  "store_byte m p v bv i a =
     (if a = ptr_add_u m p i
      then concat_bv (non_poison v) (extract_bv ((i + 1) * 8 - 1) (i * 8) (svalue v))
      else bv a)"
  by (simp add: store_byte_def Let_def)

lemma store_loop_cases:
  "foldl (store_byte m p v) bv [0..<n] a = bv a \<or>
   (\<exists>j<n. a = ptr_add_u m p j \<and>
      foldl (store_byte m p v) bv [0..<n] a =
        concat_bv (non_poison v) (extract_bv ((j + 1) * 8 - 1) (j * 8) (svalue v)))"
proof (induction n)
  case 0
  then show ?case by simp
next
  case (Suc n)
  show ?case
  proof (cases "a = ptr_add_u m p n")
    case True
    then show ?thesis
      by (auto simp: store_byte_apply simp del: upt_Suc intro!: exI[of _ n] simp add: foldl_upt_Suc)
  next
    case False
    then show ?thesis using Suc
      by (auto simp: store_byte_apply foldl_upt_Suc less_Suc_eq simp del: upt_Suc)
  qed
qed

lemma store_loop_outside:
  "(\<And>j. j < n \<Longrightarrow> a \<noteq> ptr_add_u m p j) \<Longrightarrow> foldl (store_byte m p v) bv [0..<n] a = bv a"
  using store_loop_cases[of m p v bv n a] by auto

lemma store_loop_at:
  assumes "wf_layout m"
  shows "n \<le> 2 ^ bits_for_offset m \<Longrightarrow> i < n \<Longrightarrow>
         foldl (store_byte m p v) bv [0..<n] (ptr_add_u m p i) =
           concat_bv (non_poison v) (extract_bv ((i + 1) * 8 - 1) (i * 8) (svalue v))"
proof (induction n)
  case 0
  then show ?case by simp
next
  case (Suc n)
  show ?case
  proof (cases "i = n")
    case True
    then show ?thesis by (simp add: store_byte_apply)
  next
    case False
    then have lt: "i < n" using Suc.prems by simp
    have "ptr_add_u m p i \<noteq> ptr_add_u m p n"
      using ptr_add_u_inj[OF assms, of i n p] Suc.prems False by simp
    then show ?thesis using Suc.IH lt Suc.prems by (simp add: store_byte_apply)
  qed
qed

text \<open>Reading a cell that \<open>store\<close> wrote gives the byte and the flag back.\<close>

lemma cell_low:
  "extract_bv (8 - 1) 0 (concat_bv np (extract_bv ((i + 1) * 8 - 1) (i * 8) V))
     = BV 8 ((val V div 2 ^ (i * 8)) mod 256)"
  by (simp add: extract_bv_def concat_bv_def)

lemma cell_high:
  assumes "bits np = 1" "wf_bv np"
  shows "extract_bv 8 8 (concat_bv np (extract_bv ((i + 1) * 8 - 1) (i * 8) V)) = np"
proof -
  have "val np < 2" using assms by (simp add: wf_bv_def)
  then show ?thesis using assms(1) by (cases np) (simp add: extract_bv_def concat_bv_def)
qed

lemma bvor_idem: "bvor x x = x"
  by (cases x) (simp add: bvor_def)

lemma load_loop_stored:
  assumes cells: "\<And>i. i \<le> n \<Longrightarrow> blocks_val m (ptr_add_u m p i) =
              concat_bv np (extract_bv ((i + 1) * 8 - 1) (i * 8) V)"
    and np: "bits np = 1" "wf_bv np"
  shows "foldl (load_byte m p) None [0..<Suc n] =
           Some \<lparr>svalue = BV (8 * Suc n) (val V mod 2 ^ (8 * Suc n)), non_poison = np\<rparr>"
  using cells
proof (induction n)
  case 0
  have "blocks_val m (ptr_add_u m p 0) = concat_bv np (extract_bv ((0 + 1) * 8 - 1) (0 * 8) V)"
    by (rule "0.prems") simp
  then show ?case
    using cell_low[of np 0 V] cell_high[OF np, of 0 V] by (simp add: load_byte_def Let_def)
next
  case (Suc n)
  have ih: "foldl (load_byte m p) None [0..<Suc n] =
           Some \<lparr>svalue = BV (8 * Suc n) (val V mod 2 ^ (8 * Suc n)), non_poison = np\<rparr>"
    by (rule Suc.IH) (simp add: Suc.prems)
  have c: "blocks_val m (ptr_add_u m p (Suc n)) =
              concat_bv np (extract_bv ((Suc n + 1) * 8 - 1) (Suc n * 8) V)"
    by (rule Suc.prems) simp
  have ar: "val V div 2 ^ (Suc n * 8) mod 256 * 2 ^ (8 * Suc n) + val V mod 2 ^ (8 * Suc n)
          = val V mod 2 ^ (8 * Suc (Suc n))"
  proof -
    have "val V mod (2 ^ (8 * Suc n) * 256)
        = 2 ^ (8 * Suc n) * (val V div 2 ^ (8 * Suc n) mod 256) + val V mod 2 ^ (8 * Suc n)"
      by (rule mod_mult2_eq)
    moreover have "(2::nat) ^ (8 * Suc n) * 256 = 2 ^ (8 * Suc (Suc n))"
      by (simp add: power_add)
    ultimately show ?thesis by (simp add: mult.commute)
  qed
  have "foldl (load_byte m p) None [0..<Suc (Suc n)]
      = load_byte m p (foldl (load_byte m p) None [0..<Suc n]) (Suc n)"
    by (rule foldl_upt_Suc)
  also have "\<dots> = Some \<lparr>svalue = concat_bv (BV 8 ((val V div 2 ^ (Suc n * 8)) mod 256))
                                         (BV (8 * Suc n) (val V mod 2 ^ (8 * Suc n))),
                       non_poison = bvor np np\<rparr>"
    unfolding ih using cell_low[of np "Suc n" V] cell_high[OF np, of "Suc n" V]
    by (simp add: load_byte_def Let_def c)
  also have "\<dots> = Some \<lparr>svalue = BV (8 * Suc (Suc n)) (val V mod 2 ^ (8 * Suc (Suc n))),
                       non_poison = np\<rparr>"
    using ar by (simp add: concat_bv_def bvor_idem)
  finally show ?case .
qed

lemma divide_up_8: "divide_up n 8 = (n + 7) div 8"
  by (simp add: divide_up_def)

lemma load_bv_store:
  assumes wf: "wf_layout m"
    and v0: "bits (svalue v0) = nbits" "wf_bv (svalue v0)"
    and np: "bits (non_poison v0) = 1" "wf_bv (non_poison v0)"
    and pos: "0 < nbits"
    and nowrap: "divide_up nbits 8 \<le> 2 ^ bits_for_offset m"
  shows "load_bv
           (m\<lparr>blocks_val :=
                foldl (store_byte m p (v0\<lparr>svalue := zext (svalue v0) (divide_up nbits 8 * 8 - nbits)\<rparr>))
                      (blocks_val m) [0..<divide_up nbits 8]\<rparr>)
           p nbits = Some v0"
proof -
  let ?n = "divide_up nbits 8"
  let ?v1 = "v0\<lparr>svalue := zext (svalue v0) (?n * 8 - nbits)\<rparr>"
  let ?m' = "m\<lparr>blocks_val := foldl (store_byte m p ?v1) (blocks_val m) [0..<?n]\<rparr>"
  have npos: "0 < ?n" using pos by (simp add: divide_up_8)
  then obtain k where k: "?n = Suc k" by (cases ?n) auto
  have le: "nbits \<le> 8 * ?n" by (simp add: divide_up_8)
  have cells: "blocks_val ?m' (ptr_add_u ?m' p i) =
      concat_bv (non_poison v0) (extract_bv ((i + 1) * 8 - 1) (i * 8) (svalue ?v1))"
    if "i \<le> k" for i
    using store_loop_at[OF wf nowrap, of i p ?v1 "blocks_val m"] that k by simp
  have "foldl (load_byte ?m' p) None [0..<Suc k] =
           Some \<lparr>svalue = BV (8 * Suc k) (val (svalue ?v1) mod 2 ^ (8 * Suc k)),
                 non_poison = non_poison v0\<rparr>"
    by (rule load_loop_stored[OF cells np])
  then have l: "foldl (load_byte ?m' p) None [0..<?n] =
           Some \<lparr>svalue = BV (8 * ?n) (val (svalue v0) mod 2 ^ (8 * ?n)),
                 non_poison = non_poison v0\<rparr>"
    using k by (simp add: zext_def)
  have "val (svalue v0) mod 2 ^ (8 * ?n) mod 2 ^ nbits = val (svalue v0) mod 2 ^ nbits"
    using le by (rule mod_mod_pow_le)
  also have "\<dots> = val (svalue v0)"
    using v0 by (simp add: wf_bv_def)
  finally have t: "trunc (BV (8 * ?n) (val (svalue v0) mod 2 ^ (8 * ?n))) nbits = svalue v0"
    using v0(1) by (cases "svalue v0") (simp add: trunc_def)
  show ?thesis
    unfolding load_bv_def Let_def l by (simp add: t)
qed

subsection \<open>Load after store\<close>

text \<open>
  Claim C1, as amended. Let the type give a value of \<open>bits()\<close> bits, at least one, and
  a one-bit flag, and let the number of bytes of the value not exceed
  \<open>2 ^ bits_for_offset\<close>. Then a load at \<open>p\<close>, with the same type, from the heap that
  \<open>store\<close> at \<open>p\<close> leaves, reads the bit-vector value and the flag that were stored,
  and returns them through \<open>fromBV\<close>: the stored value and its non-poison flag when
  \<open>fromBV\<close> inverts \<open>toBV\<close>. This does not depend on the dereference guard.
\<close>

theorem load_after_store:
  assumes "wf_layout m"
    and "bits (svalue (toBV T v)) = type_bits T" and "wf_bv (svalue (toBV T v))"
    and "bits (non_poison (toBV T v)) = 1" and "wf_bv (non_poison (toBV T v))"
    and "0 < type_bits T"
    and "divide_up (type_bits T) 8 \<le> 2 ^ bits_for_offset m"
  shows "load_bv (fst (store I m st p v T align)) p (type_bits T) = Some (toBV T v)
       \<and> fst (load I (fst (store I m st p v T align)) st' p T align')
           = Some (fromBV T (toBV T v))
       \<and> (fromBV T (toBV T v) = v \<longrightarrow>
            fst (load I (fst (store I m st p v T align)) st' p T align') = Some v)"
proof -
  have a: "load_bv (fst (store I m st p v T align)) p (type_bits T) = Some (toBV T v)"
    using load_bv_store[OF assms(1) assms(2) assms(3) assms(4) assms(5) assms(6) assms(7), of p]
    by (simp add: store_def Let_def assms(2))
  then have b: "fst (load I (fst (store I m st p v T align)) st' p T align')
           = Some (fromBV T (toBV T v))"
    by (simp add: load_def Let_def)
  show ?thesis using a b by simp
qed

lemma IntType_simps [simp]:
  "type_bits (IntType n) = n"
  "toBV (IntType n) v = \<lparr>svalue = svalue v, non_poison = toBVBool (non_poison v)\<rparr>"
  "fromBV (IntType n) w = \<lparr>svalue = svalue w, non_poison = (non_poison w = mkUInt 1 1)\<rparr>"
  by (simp_all add: IntType_def)

lemma toBVBool_simps [simp]:
  "toBVBool True = BV 1 1" "toBVBool False = BV 1 0"
  "bits (toBVBool b) = 1" "wf_bv (toBVBool b)"
  by (simp_all add: toBVBool_def mkUInt_def wf_bv_def)

theorem load_after_store_witness:
  "wf_layout ex_mem
   \<and> bits (svalue (toBV (IntType 32) ex_val32)) = type_bits (IntType 32)
   \<and> wf_bv (svalue (toBV (IntType 32) ex_val32))
   \<and> bits (non_poison (toBV (IntType 32) ex_val32)) = 1
   \<and> wf_bv (non_poison (toBV (IntType 32) ex_val32))
   \<and> 0 < type_bits (IntType 32)
   \<and> divide_up (type_bits (IntType 32)) 8 \<le> 2 ^ bits_for_offset ex_mem
   \<and> fst (load ex_I (fst (store ex_I ex_mem ex_st ex_ptr ex_val32 (IntType 32) 4))
              (snd (store ex_I ex_mem ex_st ex_ptr ex_val32 (IntType 32) 4))
              ex_ptr (IntType 32) 4)
       = Some ex_val32"
proof -
  have h1: "wf_layout ex_mem" by simp
  have h2: "bits (svalue (toBV (IntType 32) ex_val32)) = type_bits (IntType 32)"
    by (simp add: ex_val32_def mkUInt_def)
  have h3: "wf_bv (svalue (toBV (IntType 32) ex_val32))"
    by (simp add: ex_val32_def mkUInt_def wf_bv_def)
  have h4: "bits (non_poison (toBV (IntType 32) ex_val32)) = 1" by simp
  have h5: "wf_bv (non_poison (toBV (IntType 32) ex_val32))" by simp
  have h6: "0 < type_bits (IntType 32)" by simp
  have h7: "divide_up (type_bits (IntType 32)) 8 \<le> 2 ^ bits_for_offset ex_mem"
    by (simp add: divide_up_8)
  have rt: "fromBV (IntType 32) (toBV (IntType 32) ex_val32) = ex_val32"
    by (simp add: ex_val32_def mkUInt_def)
  note t = load_after_store [OF h1 h2 h3 h4 h5 h6 h7, of ex_I ex_st ex_ptr 4
      "snd (store ex_I ex_mem ex_st ex_ptr ex_val32 (IntType 32) 4)" 4]
  have c: "fst (load ex_I (fst (store ex_I ex_mem ex_st ex_ptr ex_val32 (IntType 32) 4))
              (snd (store ex_I ex_mem ex_st ex_ptr ex_val32 (IntType 32) 4))
              ex_ptr (IntType 32) 4) = Some ex_val32"
    using t rt by blast
  show ?thesis using h1 h2 h3 h4 h5 h6 h7 c by blast
qed

lemma ex_small_layout [simp]:
  "bits_for_offset ex_small = 2" "bits_for_local_bid ex_small = 2"
  "bits_for_nonlocal_bid ex_small = 2" "bits_size_t ex_small = 8"
  "last_bid ex_small = 0" "last_idx_ptr ex_small = 0" "state ex_small = 0"
  "bits_for_bids ex_small = 4" "total_bits ex_small = 6" "wf_layout ex_small"
  by (simp_all add: ex_small_def Memory_init_def Let_def bits_for_bids_def total_bits_def
      wf_layout_def)

lemma ex_small_ptr_eq: "ex_small_ptr = BV 6 4"
  by (simp add: ex_small_ptr_def Pointer_bid_def Let_def mkUInt_def concat_bv_def)

lemma ex_small_ptr_add: "ptr_add_u ex_small (BV 6 4) i = BV 6 (i mod 4 * 16 + 4)"
  by (simp add: ptr_add_u_def ptr_add_eq mkUInt_def)

lemma upt_5: "[0..<5] = [0, 1, 2, 3, 4]"
  by (simp add: upt_rec)

text \<open>
  Claim C1 as stated fails when the bytes of the value wrap around the offset field: with 2
  bits of offset, a 40-bit store writes its fifth byte over its first, both dereference
  guards hold, and the load returns another value.
\<close>

theorem load_after_store_counterexample:
  "snd (store ex_I ex_small ex_st ex_small_ptr ex_val40 (IntType 40) 1) = ex_st\<lparr>ub := [True]\<rparr>
   \<and> load ex_I (fst (store ex_I ex_small ex_st ex_small_ptr ex_val40 (IntType 40) 1))
          (snd (store ex_I ex_small ex_st ex_small_ptr ex_val40 (IntType 40) 1))
          ex_small_ptr (IntType 40) 1
       = (Some \<lparr>svalue = mkUInt 0x0504030205 40, non_poison = True\<rparr>,
          ex_st\<lparr>ub := [True, True]\<rparr>)
   \<and> svalue ex_val40 = mkUInt 0x0504030201 40
   \<and> mkUInt 0x0504030205 40 \<noteq> mkUInt 0x0504030201 40"
proof -
  have o: "get_offset ex_small (BV 6 4) = BV 2 0" "get_local_bid ex_small (BV 6 4) = BV 2 1"
     "get_nonlocal_bid ex_small (BV 6 4) = BV 2 0"
    by (simp_all add: get_offset_eq get_local_bid_eq get_nonlocal_bid_eq)
  have d: "is_dereferenceable_u ex_I ex_small (BV 6 4) 5 (Suc 0) s = s\<lparr>ub := ub s @ [True]\<rparr>"
    if "source s" for s
    using that
    by (simp add: is_dereferenceable_u_def is_dereferenceable_def Let_def addUB_def o
        block_size_def is_local_def mkUF_def ex_I_def mkName_def isSource_def concat_bv_def
        mkUInt_def is_aligned_def ilog2.simps sextOrTrunc_def sext_def msb_def zextOrTrunc_def
        zext_def bvadd_def ule_def ugt_def add_no_uoverflow_def)
  have s1: "snd (store ex_I ex_small ex_st ex_small_ptr ex_val40 (IntType 40) 1)
          = ex_st\<lparr>ub := [True]\<rparr>"
    by (simp add: store_def Let_def ex_small_ptr_eq ex_val40_def mkUInt_def divide_up_8 d)
  have l: "load_bv (fst (store ex_I ex_small ex_st ex_small_ptr ex_val40 (IntType 40) 1))
             (BV 6 4) 40 = Some \<lparr>svalue = BV 40 0x0504030205, non_poison = BV 1 1\<rparr>"
    by (simp add: store_def Let_def ex_small_ptr_eq ex_val40_def mkUInt_def divide_up_8
        load_bv_def upt_5 store_byte_def load_byte_def ex_small_ptr_add zext_def
        extract_bv_def concat_bv_def bvor_def trunc_def)
  have s2: "load ex_I (fst (store ex_I ex_small ex_st ex_small_ptr ex_val40 (IntType 40) 1))
          (snd (store ex_I ex_small ex_st ex_small_ptr ex_val40 (IntType 40) 1))
          ex_small_ptr (IntType 40) 1
       = (Some \<lparr>svalue = mkUInt 0x0504030205 40, non_poison = True\<rparr>,
          ex_st\<lparr>ub := [True, True]\<rparr>)"
    unfolding s1 using l
    by (simp add: load_def Let_def ex_small_ptr_eq divide_up_8 d mkUInt_def
        store_def)
  show ?thesis using s1 s2 by (simp add: ex_val40_def mkUInt_def)
qed


subsection \<open>memcpy of a small constant length\<close>

lemma copy_loop_at:
  assumes "wf_layout m"
  shows "i < n \<Longrightarrow>
         foldl (\<lambda>bv i. bv(ptr_add_u m d i := old (ptr_add_u m s i))) bv0 [0..<n]
           (ptr_add_u m d i) = old (ptr_add_u m s i)"
proof (induction n)
  case 0
  then show ?case by simp
next
  case (Suc n)
  show ?case
  proof (cases "ptr_add_u m d i = ptr_add_u m d n")
    case True
    then have "i mod 2 ^ bits_for_offset m = n mod 2 ^ bits_for_offset m"
      by (simp add: ptr_add_u_eq_iff[OF assms])
    then have "ptr_add_u m s i = ptr_add_u m s n"
      by (simp add: ptr_add_u_eq_iff[OF assms])
    then show ?thesis using True by simp
  next
    case False
    then have "i \<noteq> n" by auto
    then have "i < n" using Suc.prems by simp
    then show ?thesis using Suc.IH False by simp
  qed
qed

lemma copy_loop_outside:
  "(\<And>j. j < n \<Longrightarrow> a \<noteq> ptr_add_u m d j) \<Longrightarrow>
   foldl (\<lambda>bv i. bv(ptr_add_u m d i := old (ptr_add_u m s i))) bv0 [0..<n] a = bv0 a"
  by (induction n) simp_all

lemma upt_4: "[0..<4] = [0, 1, 2, 3]"
  by (simp add: upt_rec)

text \<open>
  Claim C7. When the length of a \<open>memcpy\<close> is a numeral \<open>n \<le> 4\<close>, the new array is the
  old one after \<open>n\<close> single-cell stores, at \<open>dst + i\<close> for \<open>i < n\<close>, each of the cell
  that the array held at \<open>src + i\<close> before the first store. So every destination cell
  ends as the old source cell, also when the two ranges overlap, and every other cell is
  unchanged.
\<close>

theorem memcpy_small_reads_old_heap:
  assumes "wf_layout m" and "isUInt ground bytes = Some n" and "n \<le> 4"
  shows "blocks_val (fst (memcpy I m st d s bytes ground align_dst align_src move)) =
           foldl (\<lambda>bv i. bv(ptr_add_u m d i := blocks_val m (ptr_add_u m s i)))
                 (blocks_val m) [0..<n]
       \<and> (\<forall>i<n. blocks_val (fst (memcpy I m st d s bytes ground align_dst align_src move))
                    (ptr_add_u m d i) = blocks_val m (ptr_add_u m s i))
       \<and> (\<forall>a. (\<forall>i<n. a \<noteq> ptr_add_u m d i) \<longrightarrow>
                blocks_val (fst (memcpy I m st d s bytes ground align_dst align_src move)) a
                  = blocks_val m a)
       \<and> (n = 4 \<longrightarrow>
            blocks_val (fst (memcpy I m st d s bytes ground align_dst align_src move)) =
              (blocks_val m)
                (ptr_add_u m d 0 := blocks_val m (ptr_add_u m s 0),
                 ptr_add_u m d 1 := blocks_val m (ptr_add_u m s 1),
                 ptr_add_u m d 2 := blocks_val m (ptr_add_u m s 2),
                 ptr_add_u m d 3 := blocks_val m (ptr_add_u m s 3)))
       \<and> last_idx_ptr (fst (memcpy I m st d s bytes ground align_dst align_src move))
           = last_idx_ptr m"
proof -
  let ?m' = "fst (memcpy I m st d s bytes ground align_dst align_src move)"
  have a: "blocks_val ?m' =
           foldl (\<lambda>bv i. bv(ptr_add_u m d i := blocks_val m (ptr_add_u m s i)))
                 (blocks_val m) [0..<n]"
    using assms(2,3) by (simp add: memcpy_def Let_def)
  have b: "\<forall>i<n. blocks_val ?m' (ptr_add_u m d i) = blocks_val m (ptr_add_u m s i)"
    unfolding a using copy_loop_at[OF assms(1)] by blast
  have c: "\<forall>a. (\<forall>i<n. a \<noteq> ptr_add_u m d i) \<longrightarrow> blocks_val ?m' a = blocks_val m a"
    unfolding a using copy_loop_outside by blast
  have e: "n = 4 \<longrightarrow> blocks_val ?m' =
              (blocks_val m)
                (ptr_add_u m d 0 := blocks_val m (ptr_add_u m s 0),
                 ptr_add_u m d 1 := blocks_val m (ptr_add_u m s 1),
                 ptr_add_u m d 2 := blocks_val m (ptr_add_u m s 2),
                 ptr_add_u m d 3 := blocks_val m (ptr_add_u m s 3))"
    unfolding a by (simp add: upt_4)
  have f: "last_idx_ptr ?m' = last_idx_ptr m"
    using assms(2,3) by (simp add: memcpy_def Let_def)
  show ?thesis using a b c e f by blast
qed

lemma ex_mem32_eq:
  "ex_mem32 = ex_mem\<lparr>blocks_val :=
      foldl (store_byte ex_mem (BV 24 16) \<lparr>svalue = BV 32 0x01020304, non_poison = BV 1 1\<rparr>)
            (blocks_val ex_mem) [0..<4]\<rparr>"
  by (simp add: ex_mem32_def store_def Let_def ex_val32_def ex_ptr_eq mkUInt_def divide_up_8
      zext_def)

lemma ex_mem32_layout [simp]:
  "bits_for_offset ex_mem32 = 16" "bits_for_bids ex_mem32 = 8" "wf_layout ex_mem32"
  "ptr_add_u ex_mem32 = ptr_add_u ex_mem"
  by (simp_all add: ex_mem32_eq)

lemma ex_ptr_add:
  "ptr_add_u ex_mem (BV 24 x) i = BV 24 ((x div 256 mod 65536 + i) mod 65536 * 256 + x mod 256)"
  by (simp add: ptr_add_u_def ptr_add_eq mkUInt_def mod_add_right_eq)

lemma ex_mem32_cells:
  "blocks_val ex_mem32 (BV 24 16) = BV 9 0x104"
  "blocks_val ex_mem32 (BV 24 272) = BV 9 0x103"
  "blocks_val ex_mem32 (BV 24 528) = BV 9 0x102"
  "blocks_val ex_mem32 (BV 24 784) = BV 9 0x101"
  by (simp_all add: ex_mem32_eq upt_4 store_byte_def ex_ptr_add extract_bv_def concat_bv_def)

theorem memcpy_small_reads_old_heap_witness:
  "wf_layout ex_mem32 \<and> isUInt True (mkUInt 3 32) = Some 3 \<and> (3::nat) \<le> 4
   \<and> blocks_val ex_mem32 (BV 24 16) = BV 9 0x104
   \<and> blocks_val ex_mem32 (BV 24 272) = BV 9 0x103
   \<and> blocks_val ex_mem32 (BV 24 528) = BV 9 0x102
   \<and> blocks_val (fst (memcpy ex_I ex_mem32 ex_st (BV 24 272) (BV 24 16) (mkUInt 3 32) True
                          1 1 True)) (BV 24 272) = BV 9 0x104
   \<and> blocks_val (fst (memcpy ex_I ex_mem32 ex_st (BV 24 272) (BV 24 16) (mkUInt 3 32) True
                          1 1 True)) (BV 24 528) = BV 9 0x103
   \<and> blocks_val (fst (memcpy ex_I ex_mem32 ex_st (BV 24 272) (BV 24 16) (mkUInt 3 32) True
                          1 1 True)) (BV 24 784) = BV 9 0x102"
proof -
  have h1: "wf_layout ex_mem32" by simp
  have h2: "isUInt True (mkUInt 3 32) = Some 3" by (simp add: isUInt_def mkUInt_def)
  have h3: "(3::nat) \<le> 4" by simp
  note t = memcpy_small_reads_old_heap [OF h1 h2 h3, of ex_I ex_st "BV 24 272" "BV 24 16" 1 1 True,
      THEN conjunct2, THEN conjunct1]
  have c0: "blocks_val (fst (memcpy ex_I ex_mem32 ex_st (BV 24 272) (BV 24 16) (mkUInt 3 32) True
                          1 1 True)) (BV 24 272) = BV 9 0x104"
    using t [rule_format, of 0] by (simp add: ex_ptr_add ex_mem32_cells)
  have c1: "blocks_val (fst (memcpy ex_I ex_mem32 ex_st (BV 24 272) (BV 24 16) (mkUInt 3 32) True
                          1 1 True)) (BV 24 528) = BV 9 0x103"
    using t [rule_format, of 1] by (simp add: ex_ptr_add ex_mem32_cells)
  have c2: "blocks_val (fst (memcpy ex_I ex_mem32 ex_st (BV 24 272) (BV 24 16) (mkUInt 3 32) True
                          1 1 True)) (BV 24 784) = BV 9 0x102"
    using t [rule_format, of 2] by (simp add: ex_ptr_add ex_mem32_cells)
  show ?thesis using h1 h2 h3 c0 c1 c2 ex_mem32_cells by blast
qed


subsection \<open>The layout of the cells\<close>

lemma extract_byte:
  "extract_bv ((i + 1) * 8 - 1) (i * 8) (zext x k) = BV 8 (val x div 2 ^ (i * 8) mod 256)"
  by (simp add: extract_bv_def zext_def)

lemma extract_byte_nf:
  "extract_bv (7 + i * 8) (i * 8) (zext x k) = BV 8 (val x div 2 ^ (i * 8) mod 256)"
  by (simp add: extract_bv_def zext_def)

lemma cell_fields:
  assumes "bits np = 1" "wf_bv np" "bits byte = 8" "wf_bv byte"
  shows "concat_bv np byte = BV 9 (val np * 256 + val byte)"
    and "extract_bv 8 8 (concat_bv np byte) = np"
    and "extract_bv (8 - 1) 0 (concat_bv np byte) = byte"
proof -
  have n: "val np < 2" and b: "val byte < 256" using assms by (simp_all add: wf_bv_def)
  show "concat_bv np byte = BV 9 (val np * 256 + val byte)"
    using assms(1,3) by (simp add: concat_bv_def)
  show "extract_bv 8 8 (concat_bv np byte) = np"
    using assms(1,3) n b by (cases np) (simp add: extract_bv_def concat_bv_def)
  show "extract_bv (8 - 1) 0 (concat_bv np byte) = byte"
    using assms(1,3) n b by (cases byte) (simp add: extract_bv_def concat_bv_def)
qed

lemma fill_loop_cases:
  "foldl (\<lambda>bv i. bv(ptr_add_u m p i := c)) bv0 [0..<n] a = bv0 a \<or>
   foldl (\<lambda>bv i. bv(ptr_add_u m p i := c)) bv0 [0..<n] a = c"
  by (induction n) auto

lemma fill_loop_at:
  "i < n \<Longrightarrow> foldl (\<lambda>bv i. bv(ptr_add_u m p i := c)) bv0 [0..<n] (ptr_add_u m p i) = c"
  by (induction n) (auto simp: less_Suc_eq)

lemma store_blocks_val:
  "blocks_val (fst (store I m st p v T align)) =
     foldl (store_byte m p
              ((toBV T v)\<lparr>svalue := zext (svalue (toBV T v))
                 (divide_up (bits (svalue (toBV T v))) 8 * 8 - bits (svalue (toBV T v)))\<rparr>))
           (blocks_val m) [0..<divide_up (bits (svalue (toBV T v))) 8]"
  by (simp add: store_def Let_def)

lemma memset_cells:
  "blocks_val (fst (memset I m st p w bytes ground align)) a = blocks_val m a \<or>
   blocks_val (fst (memset I m st p w bytes ground align)) a
     = concat_bv (toBVBool (non_poison w)) (svalue w)"
  using fill_loop_cases[of m p "concat_bv (toBVBool (non_poison w)) (svalue w)" "blocks_val m" _ a]
  by (auto simp: memset_def Let_def split: option.splits)

lemma memset_small_at:
  assumes "isUInt ground bytes = Some n" "n \<le> 4" "i < n"
  shows "blocks_val (fst (memset I m st p w bytes ground align)) (ptr_add_u m p i)
     = concat_bv (toBVBool (non_poison w)) (svalue w)"
  using assms by (simp add: memset_def Let_def fill_loop_at)

text \<open>
  Claim C3, as amended. Every cell that \<open>store\<close> or \<open>memset\<close> changes is the
  concatenation of a one-bit flag and a byte, 9 bits with the flag on top. The flag is the
  non-poison flag of the value: \<open>store\<close> writes the flag that \<open>toBV\<close> returns and
  \<open>memset\<close> writes \<open>toBVBool\<close> of the non-poison flag, so the top bit is 1 exactly when
  the byte is not poisoned. A store writes the flag and byte \<open>i\<close> of the value at
  \<open>p + i\<close>, and that is the cell the heap holds there when the byte count does not exceed
  \<open>2 ^ bits_for_offset\<close>.
\<close>

theorem heap_cell_layout:
  assumes "wf_layout m"
  shows "(blocks_val (fst (store I m st p v T align)) a = blocks_val m a \<or>
          (\<exists>j < divide_up (bits (svalue (toBV T v))) 8.
             a = ptr_add_u m p j \<and>
             blocks_val (fst (store I m st p v T align)) a =
               concat_bv (non_poison (toBV T v))
                         (BV 8 (val (svalue (toBV T v)) div 2 ^ (j * 8) mod 256))))
       \<and> (divide_up (bits (svalue (toBV T v))) 8 \<le> 2 ^ bits_for_offset m \<longrightarrow>
            (\<forall>i < divide_up (bits (svalue (toBV T v))) 8.
               blocks_val (fst (store I m st p v T align)) (ptr_add_u m p i) =
                 concat_bv (non_poison (toBV T v))
                           (BV 8 (val (svalue (toBV T v)) div 2 ^ (i * 8) mod 256))))
       \<and> (blocks_val (fst (memset I m st p w bytes ground align)) a = blocks_val m a \<or>
          blocks_val (fst (memset I m st p w bytes ground align)) a
            = concat_bv (toBVBool (non_poison w)) (svalue w))
       \<and> (\<forall>n. isUInt ground bytes = Some n \<and> n \<le> 4 \<longrightarrow>
            (\<forall>i < n. blocks_val (fst (memset I m st p w bytes ground align)) (ptr_add_u m p i)
                       = concat_bv (toBVBool (non_poison w)) (svalue w)))
       \<and> (bits np = 1 \<and> wf_bv np \<and> bits byte = 8 \<and> wf_bv byte \<longrightarrow>
            concat_bv np byte = BV 9 (val np * 256 + val byte)
          \<and> extract_bv 8 8 (concat_bv np byte) = np
          \<and> extract_bv (8 - 1) 0 (concat_bv np byte) = byte)
       \<and> (bits byte = 8 \<and> wf_bv byte \<longrightarrow>
            (extract_bv 8 8 (concat_bv (toBVBool b) byte) = BV 1 1 \<longleftrightarrow> b))"
proof -
  let ?v0 = "toBV T v"
  let ?n = "divide_up (bits (svalue ?v0)) 8"
  let ?v1 = "?v0\<lparr>svalue := zext (svalue ?v0) (?n * 8 - bits (svalue ?v0))\<rparr>"
  have c1: "blocks_val (fst (store I m st p v T align)) a = blocks_val m a \<or>
          (\<exists>j < ?n. a = ptr_add_u m p j \<and>
             blocks_val (fst (store I m st p v T align)) a =
               concat_bv (non_poison ?v0) (BV 8 (val (svalue ?v0) div 2 ^ (j * 8) mod 256)))"
    using store_loop_cases[of m p ?v1 "blocks_val m" ?n a]
    by (simp add: store_blocks_val extract_byte extract_byte_nf)
  have c2: "?n \<le> 2 ^ bits_for_offset m \<longrightarrow>
            (\<forall>i < ?n. blocks_val (fst (store I m st p v T align)) (ptr_add_u m p i) =
                 concat_bv (non_poison ?v0) (BV 8 (val (svalue ?v0) div 2 ^ (i * 8) mod 256)))"
    using store_loop_at[OF assms, of ?n _ p ?v1 "blocks_val m"]
    by (simp add: store_blocks_val extract_byte extract_byte_nf)
  have c3: "blocks_val (fst (memset I m st p w bytes ground align)) a = blocks_val m a \<or>
          blocks_val (fst (memset I m st p w bytes ground align)) a
            = concat_bv (toBVBool (non_poison w)) (svalue w)"
    by (rule memset_cells)
  have c4: "\<forall>n. isUInt ground bytes = Some n \<and> n \<le> 4 \<longrightarrow>
            (\<forall>i < n. blocks_val (fst (memset I m st p w bytes ground align)) (ptr_add_u m p i)
                       = concat_bv (toBVBool (non_poison w)) (svalue w))"
    using memset_small_at by blast
  have c5: "bits np = 1 \<and> wf_bv np \<and> bits byte = 8 \<and> wf_bv byte \<longrightarrow>
            concat_bv np byte = BV 9 (val np * 256 + val byte)
          \<and> extract_bv 8 8 (concat_bv np byte) = np
          \<and> extract_bv (8 - 1) 0 (concat_bv np byte) = byte"
    using cell_fields[of np byte] by blast
  have c6: "bits byte = 8 \<and> wf_bv byte \<longrightarrow>
            (extract_bv 8 8 (concat_bv (toBVBool b) byte) = BV 1 1 \<longleftrightarrow> b)"
  proof
    assume h: "bits byte = 8 \<and> wf_bv byte"
    have "extract_bv 8 8 (concat_bv (toBVBool b) byte) = toBVBool b"
      using h by (intro cell_fields(2)) simp_all
    then show "extract_bv 8 8 (concat_bv (toBVBool b) byte) = BV 1 1 \<longleftrightarrow> b"
      by (cases b) simp_all
  qed
  show ?thesis using c1 c2 c3 c4 c5 c6 by blast
qed

theorem heap_cell_layout_witness:
  "wf_layout ex_mem
   \<and> blocks_val (fst (store ex_I ex_mem ex_st ex_ptr ex_val32 (IntType 32) 1)) (BV 24 272)
       = BV 9 0x103
   \<and> blocks_val (fst (memset ex_I ex_mem ex_st ex_ptr ex_fill (mkUInt 2 32) True 1)) (BV 24 272)
       = BV 9 0x1FF
   \<and> extract_bv 8 8 (concat_bv (BV 1 1) (BV 8 3)) = BV 1 1"
proof -
  have h: "wf_layout ex_mem" by simp
  note t = heap_cell_layout [OF h, where I = ex_I and st = ex_st and p = "BV 24 16"
      and v = ex_val32 and T = "IntType 32" and align = 1 and a = "BV 24 272" and w = ex_fill
      and bytes = "mkUInt 2 32" and ground = True and np = "BV 1 1" and byte = "BV 8 3"
      and b = True]
  have p1: "ptr_add_u ex_mem (BV 24 16) 1 = BV 24 272"
    by (simp add: ex_ptr_add)
  have c1: "blocks_val (fst (store ex_I ex_mem ex_st ex_ptr ex_val32 (IntType 32) 1)) (BV 24 272)
       = BV 9 0x103"
    using t [THEN conjunct2, THEN conjunct1, rule_format, of 1] p1
    by (simp add: ex_val32_def mkUInt_def divide_up_8 ex_ptr_eq concat_bv_def)
  have u: "isUInt True (mkUInt 2 32) = Some 2" by (simp add: isUInt_def mkUInt_def)
  have c2: "blocks_val (fst (memset ex_I ex_mem ex_st ex_ptr ex_fill (mkUInt 2 32) True 1)) (BV 24 272)
       = BV 9 0x1FF"
    using t [THEN conjunct2, THEN conjunct2, THEN conjunct2, THEN conjunct1, rule_format, of 2 1]
      u p1
    by (simp add: ex_ptr_eq ex_fill_def concat_bv_def mkUInt_def)
  have w: "bits (BV 1 1) = 1 \<and> wf_bv (BV 1 1) \<and> bits (BV 8 3) = 8 \<and> wf_bv (BV 8 3)"
    by (simp add: wf_bv_def)
  have c3: "extract_bv 8 8 (concat_bv (BV 1 1) (BV 8 3)) = BV 1 1"
    using t [THEN conjunct2, THEN conjunct2, THEN conjunct2, THEN conjunct2, THEN conjunct1,
        THEN mp, OF w]
    by blast
  show ?thesis using h c1 c2 c3 by blast
qed

text \<open>
  Claim C3 as stated fails on the sense of the top bit: \<open>memset\<close> of a byte that is not
  poisoned writes a cell whose top bit is 1, and \<open>store\<close> of a poisoned byte writes a cell
  whose top bit is 0, as in the cells that the constructor initialises as poison.
\<close>

theorem heap_cell_top_bit_counterexample:
  "non_poison ex_fill
   \<and> extract_bv 8 8
        (blocks_val (fst (memset ex_I ex_mem ex_st ex_ptr ex_fill (mkUInt 1 32) True 1)) ex_ptr)
       = BV 1 1
   \<and> \<not> non_poison ex_poison8
   \<and> extract_bv 8 8
        (blocks_val (fst (store ex_I ex_mem ex_st ex_ptr ex_poison8 (IntType 8) 1)) ex_ptr)
       = BV 1 0
   \<and> blocks_val ex_mem ex_ptr = mkUInt 0 9"
proof -
  have p0: "ptr_add_u ex_mem (BV 24 16) 0 = BV 24 16"
    by (simp add: ex_ptr_add)
  have a: "extract_bv 8 8
        (blocks_val (fst (memset ex_I ex_mem ex_st ex_ptr ex_fill (mkUInt 1 32) True 1)) ex_ptr)
       = BV 1 1"
    by (simp add: memset_def Let_def isUInt_def mkUInt_def ex_ptr_eq p0 ex_fill_def
        concat_bv_def extract_bv_def)
  have b: "extract_bv 8 8
        (blocks_val (fst (store ex_I ex_mem ex_st ex_ptr ex_poison8 (IntType 8) 1)) ex_ptr)
       = BV 1 0"
    by (simp add: store_def Let_def ex_poison8_def mkUInt_def divide_up_8 ex_ptr_eq
        store_byte_def p0 zext_def concat_bv_def extract_bv_def)
  have c: "blocks_val ex_mem ex_ptr = mkUInt 0 9"
    by (simp add: ex_mem_def Memory_init_def Let_def ex_ptr_eq is_local_def
        get_local_bid_def get_nonlocal_bid_def bits_for_bids_def extract_bv_def)
  show ?thesis using a b c by (simp add: ex_fill_def ex_poison8_def)
qed

subsection \<open>The non-poison flag of a load\<close>

lemma deref_last_bid [simp]:
  "is_dereferenceable I (m\<lparr>last_bid := x\<rparr>) = is_dereferenceable I m"
  "is_dereferenceable_u I (m\<lparr>last_bid := x\<rparr>) = is_dereferenceable_u I m"
  by (simp_all add: is_dereferenceable_def is_dereferenceable_u_def fun_eq_iff Let_def)

lemma ex_alloc_eq:
  "ex_alloc = (BV 24 16, ex_mem\<lparr>last_bid := 1\<rparr>, ex_st\<lparr>pre := [True, True]\<rparr>)"
proof -
  have o: "get_offset ex_mem (BV 24 16) = BV 16 0" "get_local_bid ex_mem (BV 24 16) = BV 4 1"
     "get_nonlocal_bid ex_mem (BV 24 16) = BV 4 0"
    by (simp_all add: get_offset_eq get_local_bid_eq get_nonlocal_bid_eq)
  have p: "Pointer_bid ex_mem (Suc 0) True = BV 24 16"
    using ex_ptr_eq by (simp add: ex_ptr_def)
  show ?thesis
    by (simp add: ex_alloc_def alloc_def Let_def p addPre_def is_aligned_def ilog2.simps
        block_size_def is_local_def o mkUF_def ex_I_def mkName_def isSource_def concat_bv_def
        mkUInt_def zextOrTrunc_def trunc_def)
qed

text \<open>
  Claim C2 on the code. The flag of a load is the bitwise or of the top bits of the cells
  read. On a new heap, after the allocation of a local block of 8 bytes and the store of
  one byte that is not poisoned at its start, all conditions of the state hold, the second
  cell of the block is still the poison cell of the constructor (top bit 0), and a 16-bit
  load at the start of the block returns a value that is not poisoned: the flag is the or
  of 0 and 1.
\<close>

theorem load_flag_or_hides_poison:
  "fst ex_alloc = BV 24 16
   \<and> snd (store ex_I (fst (snd ex_alloc)) (snd (snd ex_alloc)) (fst ex_alloc) ex_val8
            (IntType 8) 1)
       = ex_st\<lparr>pre := [True, True], ub := [True]\<rparr>
   \<and> blocks_val (fst (store ex_I (fst (snd ex_alloc)) (snd (snd ex_alloc)) (fst ex_alloc)
                         ex_val8 (IntType 8) 1)) (BV 24 16) = BV 9 0x104
   \<and> blocks_val (fst (store ex_I (fst (snd ex_alloc)) (snd (snd ex_alloc)) (fst ex_alloc)
                         ex_val8 (IntType 8) 1)) (BV 24 272) = mkUInt 0 9
   \<and> extract_bv 8 8 (mkUInt 0 9) = BV 1 0
   \<and> bvor (BV 1 0) (BV 1 1) = BV 1 1
   \<and> load ex_I (fst (store ex_I (fst (snd ex_alloc)) (snd (snd ex_alloc)) (fst ex_alloc)
                         ex_val8 (IntType 8) 1))
          (snd (store ex_I (fst (snd ex_alloc)) (snd (snd ex_alloc)) (fst ex_alloc)
                         ex_val8 (IntType 8) 1))
          (fst ex_alloc) (IntType 16) 1
       = (Some \<lparr>svalue = BV 16 4, non_poison = True\<rparr>,
          ex_st\<lparr>pre := [True, True], ub := [True, True]\<rparr>)"
proof -
  let ?m1 = "ex_mem\<lparr>last_bid := 1\<rparr>"
  let ?st1 = "ex_st\<lparr>pre := [True, True]\<rparr>"
  have o: "get_offset ex_mem (BV 24 16) = BV 16 0" "get_local_bid ex_mem (BV 24 16) = BV 4 1"
     "get_nonlocal_bid ex_mem (BV 24 16) = BV 4 0"
     "get_local_bid ex_mem (BV 24 272) = BV 4 1" "get_nonlocal_bid ex_mem (BV 24 272) = BV 4 0"
    by (simp_all add: get_offset_eq get_local_bid_eq get_nonlocal_bid_eq)
  have d: "is_dereferenceable_u ex_I ex_mem (BV 24 16) k (Suc 0) s = s\<lparr>ub := ub s @ [True]\<rparr>"
    if "source s" "k = 1 \<or> k = 2" for s k
    using that
    by (auto simp: is_dereferenceable_u_def is_dereferenceable_def Let_def addUB_def o
        block_size_def is_local_def mkUF_def ex_I_def mkName_def isSource_def concat_bv_def
        mkUInt_def is_aligned_def ilog2.simps sextOrTrunc_def sext_def msb_def zextOrTrunc_def
        zext_def bvadd_def ule_def ugt_def add_no_uoverflow_def)
  have m2: "fst (store ex_I ?m1 ?st1 (BV 24 16) ex_val8 (IntType 8) 1)
          = ?m1\<lparr>blocks_val := (blocks_val ex_mem)(BV 24 16 := BV 9 0x104)\<rparr>"
    by (simp add: store_def Let_def ex_val8_def mkUInt_def divide_up_8 store_byte_def
        ex_ptr_add zext_def concat_bv_def extract_bv_def)
  have s2: "snd (store ex_I ?m1 ?st1 (BV 24 16) ex_val8 (IntType 8) 1)
          = ex_st\<lparr>pre := [True, True], ub := [True]\<rparr>"
    by (simp add: store_def Let_def ex_val8_def mkUInt_def divide_up_8 d)
  have c1: "blocks_val ex_mem (BV 24 272) = mkUInt 0 9"
    by (simp add: ex_mem_def Memory_init_def Let_def is_local_def
        get_local_bid_def get_nonlocal_bid_def bits_for_bids_def extract_bv_def)
  have l: "load_bv (?m1\<lparr>blocks_val := (blocks_val ex_mem)(BV 24 16 := BV 9 0x104)\<rparr>)
             (BV 24 16) 16 = Some \<lparr>svalue = BV 16 4, non_poison = BV 1 1\<rparr>"
    by (simp add: load_bv_def divide_up_8 upt_rec load_byte_def Let_def ex_ptr_add c1
        mkUInt_def extract_bv_def concat_bv_def bvor_def trunc_def)
  have ld: "load ex_I (?m1\<lparr>blocks_val := (blocks_val ex_mem)(BV 24 16 := BV 9 0x104)\<rparr>)
          (ex_st\<lparr>pre := [True, True], ub := [True]\<rparr>) (BV 24 16) (IntType 16) 1
       = (Some \<lparr>svalue = BV 16 4, non_poison = True\<rparr>,
          ex_st\<lparr>pre := [True, True], ub := [True, True]\<rparr>)"
    using l by (simp add: load_def Let_def divide_up_8 d mkUInt_def)
  have e: "extract_bv 8 8 (mkUInt 0 9) = BV 1 0" "bvor (BV 1 0) (BV 1 1) = BV 1 1"
    by (simp_all add: extract_bv_def mkUInt_def bvor_def)
  show ?thesis
    unfolding ex_alloc_eq fst_conv snd_conv m2 s2
    using ld c1 e by simp
qed


end
